theory Spec2Isabelle
  imports Main "HOL-Library.Sublist"
begin

section \<open>JavaScript strings\<close>

text \<open>
  Strings are lists of characters. The helpers below follow the JavaScript string
  methods the extension calls, on ASCII text.
\<close>

fun startsWith :: "string \<Rightarrow> string \<Rightarrow> bool" where
  "startsWith s [] = True"
| "startsWith [] (p # ps) = False"
| "startsWith (c # cs) (p # ps) = (c = p \<and> startsWith cs ps)"

definition endsWith :: "string \<Rightarrow> string \<Rightarrow> bool" where
  "endsWith s p = startsWith (rev s) (rev p)"

section \<open>utils/detect.js: isGreenhouse\<close>

datatype js_error = TypeError

record url =
  hostname :: string

text \<open>
  The \<open>URL\<close> constructor belongs to the browser. It is a parameter of the model: it
  either throws a \<open>TypeError\<close> or yields a parsed URL with a host name.
\<close>

type_synonym url_ctor = "string \<Rightarrow> js_error + url"

definition isGreenhouse_body :: "url_ctor \<Rightarrow> string \<Rightarrow> js_error + bool" where
  "isGreenhouse_body new_URL u_str =
     (case new_URL u_str of
        Inl e \<Rightarrow> Inl e
      | Inr u \<Rightarrow> Inr (endsWith (hostname u) ''greenhouse.io''
                    \<or> endsWith (hostname u) ''boards.greenhouse.io''
                    \<or> endsWith (hostname u) ''job-boards.greenhouse.io''))"

definition isGreenhouse :: "url_ctor \<Rightarrow> string \<Rightarrow> bool" where
  "isGreenhouse new_URL u_str =
     (case isGreenhouse_body new_URL u_str of Inl e \<Rightarrow> False | Inr b \<Rightarrow> b)"

section \<open>Numbers as text\<close>

text \<open>Decimal rendering of an integer, as a template literal prints a whole number.\<close>

definition digit_char :: "nat \<Rightarrow> char" where
  "digit_char d = char_of (48 + d)"

fun show_nat :: "nat \<Rightarrow> string" where
  "show_nat n = (if n < 10 then [digit_char n] else show_nat (n div 10) @ [digit_char (n mod 10)])"

declare show_nat.simps [simp del]

definition show_int :: "int \<Rightarrow> string" where
  "show_int i = (if i < 0 then CHR ''-'' # show_nat (nat (- i)) else show_nat (nat i))"

section \<open>background.js: the request orchestrator\<close>

text \<open>
  Times are the values of \<open>Date.now()\<close>, in milliseconds. \<open>Math.round\<close> of a quotient by
  1000 rounds half up.
\<close>

type_synonym time = int

definition REQUEST_TIMEOUT :: int where
  "REQUEST_TIMEOUT = 2 * 60 * 1000"

definition KEEP_ALIVE_INTERVAL :: int where
  "KEEP_ALIVE_INTERVAL = 20 * 1000"

definition round_seconds :: "int \<Rightarrow> int" where
  "round_seconds ms = (ms + 500) div 1000"

text \<open>
  A JavaScript value as far as the orchestrator looks at it: it only tests truthiness
  (\<open>a || b\<close>) and passes the value on. An object or array is kept as its JSON text.
\<close>

datatype jsval = Undefined | Null | Bool bool | Num int | Str string | Obj string

fun truthy :: "jsval \<Rightarrow> bool" where
  "truthy Undefined = False"
| "truthy Null = False"
| "truthy (Bool b) = b"
| "truthy (Num n) = (n \<noteq> 0)"
| "truthy (Str t) = (t \<noteq> [])"
| "truthy (Obj t) = True"

definition js_or :: "jsval \<Rightarrow> jsval \<Rightarrow> jsval" where
  "js_or a b = (if truthy a then a else b)"

subsection \<open>Persisted request records\<close>

datatype status = Processing | Complete | Error

text \<open>
  The three shapes \<open>saveRequestState\<close> is called with: \<open>{status: 'processing', startTime,
  jd_url}\<close>, \<open>{status: 'complete', data, completedTime, elapsed}\<close> and \<open>{status: 'error',
  error, completedTime, elapsed}\<close>.
\<close>

datatype request_state =
    ProcessingState time string
  | CompleteState jsval time int
  | ErrorState jsval time int

fun status_of :: "request_state \<Rightarrow> status" where
  "status_of (ProcessingState startTime jd_url) = Processing"
| "status_of (CompleteState dat completedTime elapsed) = Complete"
| "status_of (ErrorState err completedTime elapsed) = Error"

text \<open>
  The background context: the part of \<open>chrome.storage.local\<close> under the keys
  \<open>request_ID\<close> (for a request id \<open>ID\<close>), indexed by the request id, the in-memory map
  \<open>pendingRequests\<close> (request id to start time), the keep-alive timer, and the status
  checks that have read their record and wait to go on: the number of the call, with
  the request id and the record it read.
  Storage calls are answered in the order they are issued, take effect where they are
  issued and are taken to succeed.
\<close>

record bg =
  requests :: "string \<rightharpoonup> request_state"
  pendingRequests :: "string \<rightharpoonup> time"
  keepAliveInterval :: bool
  keepAliveCount :: nat
  statusChecks :: "nat \<rightharpoonup> string \<times> request_state option"

definition bg_init :: bg where
  "bg_init = \<lparr>requests = Map.empty, pendingRequests = Map.empty,
              keepAliveInterval = False, keepAliveCount = 0, statusChecks = Map.empty\<rparr>"

definition startKeepAlive :: "bg \<Rightarrow> bg" where
  "startKeepAlive s =
     (if keepAliveInterval s then s
      else s\<lparr>keepAliveCount := 0, keepAliveInterval := True\<rparr>)"

definition stopKeepAlive :: "bg \<Rightarrow> bg" where
  "stopKeepAlive s =
     (if keepAliveInterval s then s\<lparr>keepAliveInterval := False, keepAliveCount := 0\<rparr>
      else s)"

definition saveRequestState :: "string \<Rightarrow> request_state \<Rightarrow> bg \<Rightarrow> bg" where
  "saveRequestState requestId st s = s\<lparr>requests := (requests s)(requestId \<mapsto> st)\<rparr>"

definition getRequestState :: "string \<Rightarrow> bg \<Rightarrow> request_state option" where
  "getRequestState requestId s = requests s requestId"

definition clearRequestState :: "string \<Rightarrow> bg \<Rightarrow> bg" where
  "clearRequestState requestId s = s\<lparr>requests := (requests s)(requestId := None)\<rparr>"

subsection \<open>fetchWithTimeout\<close>

text \<open>
  What the network does with a request that nobody aborts. \<open>fetch()\<close> resolves after
  some milliseconds with a response (\<open>res.ok\<close>, \<open>res.status\<close>), and then the body is
  read by \<open>res.json()\<close> or \<open>res.text()\<close>: the data after some more milliseconds, an
  exception (its name and message), or no end. Or \<open>fetch()\<close> rejects with an
  exception, or it never settles.
\<close>

datatype body_read = BodyRead int jsval | BodyFails int string string | BodyHangs

datatype fetch_behaviour = Responds int bool int body_read | Rejects int string string | Hangs

text \<open>
  What \<open>await fetch(url, options)\<close> gives in \<open>fetchWithTimeout\<close>. The timer set with
  \<open>setTimeout\<close> calls \<open>controller.abort()\<close> after \<open>timeout\<close> milliseconds unless
  \<open>fetch()\<close> has settled by then; the aborted fetch rejects with an \<open>AbortError\<close>. The
  second component is the clock when the function continues; \<open>lag\<close> is the delay of the
  timer callback. \<open>startTime\<close> is the clock before the fetch, which \<open>fetchWithTimeout\<close>
  and its caller both read at that moment.
\<close>

datatype fetch_outcome = Resolved bool int body_read | Rejected string string | Aborted

definition timer_race :: "int \<Rightarrow> time \<Rightarrow> fetch_behaviour \<Rightarrow> int \<Rightarrow> fetch_outcome \<times> time" where
  "timer_race timeout startTime net lag =
     (case net of
        Responds dt ok st body \<Rightarrow>
          if dt \<le> timeout then (Resolved ok st body, startTime + dt)
          else (Aborted, startTime + timeout + lag)
      | Rejects dt name msg \<Rightarrow>
          if dt \<le> timeout then (Rejected name msg, startTime + dt)
          else (Aborted, startTime + timeout + lag)
      | Hangs \<Rightarrow> (Aborted, startTime + timeout + lag))"

text \<open>The object \<open>fetchWithTimeout\<close> returns: \<open>{ok, status, data}\<close> or \<open>{ok: false, error}\<close>.\<close>

datatype fetch_result = FetchData bool int jsval | FetchFailed string

fun res_ok :: "fetch_result \<Rightarrow> bool" where
  "res_ok (FetchData ok st dat) = ok"
| "res_ok (FetchFailed err) = False"

fun res_data :: "fetch_result \<Rightarrow> jsval" where
  "res_data (FetchData ok st dat) = dat"
| "res_data (FetchFailed err) = Undefined"

fun res_error :: "fetch_result \<Rightarrow> jsval" where
  "res_error (FetchData ok st dat) = Undefined"
| "res_error (FetchFailed err) = Str err"

text \<open>\<open>err.message || err.toString()\<close> for an exception with the given name and message.\<close>

definition err_text :: "string \<Rightarrow> string \<Rightarrow> string" where
  "err_text name msg =
     (if msg \<noteq> [] then msg else if name = [] then ''Error'' else name)"

text \<open>The \<open>catch\<close> block of \<open>fetchWithTimeout\<close>, for an exception caught at clock \<open>now\<close>.\<close>

definition fetch_catch :: "time \<Rightarrow> string \<Rightarrow> string \<Rightarrow> time \<Rightarrow> fetch_result" where
  "fetch_catch startTime name msg now =
     (if name = ''AbortError''
      then FetchFailed (''Request timed out after '' @ show_int (round_seconds (now - startTime)) @ '' seconds'')
      else FetchFailed (err_text name msg))"

text \<open>
  \<open>fetchWithTimeout\<close>: what it returns and the clock at that moment, or nothing when it
  never returns. Once \<open>fetch()\<close> has resolved the timer is cleared, and the body is
  read with no deadline: the function returns when the body has been read or the
  read has failed, and not at all when the body never ends.
\<close>

definition fetchWithTimeout ::
    "int \<Rightarrow> time \<Rightarrow> fetch_behaviour \<Rightarrow> int \<Rightarrow> (fetch_result \<times> time) option" where
  "fetchWithTimeout timeout startTime net lag =
     (case timer_race timeout startTime net lag of
        (Resolved ok st body, t) \<Rightarrow>
          (case body of
             BodyRead db dat \<Rightarrow> Some (FetchData ok st dat, t + db)
           | BodyFails db name msg \<Rightarrow> Some (fetch_catch startTime name msg (t + db), t + db)
           | BodyHangs \<Rightarrow> None)
      | (Rejected name msg, t) \<Rightarrow> Some (fetch_catch startTime name msg t, t)
      | (Aborted, t) \<Rightarrow> Some (fetch_catch startTime ''AbortError'' ''The user aborted a request.'' t, t))"

subsection \<open>handleResumeScoreRequest\<close>

record score_payload =
  parsed_resume_text :: "string option"
  jd_url :: "string option"

text \<open>
  The function runs in two stretches. The first runs up to the fetch: it starts the
  keep-alive and stores the processing record. The second runs when the \<open>try\<close> block
  continues: \<open>fetchWithTimeout\<close> has returned its result, or an exception (its name
  and message) was thrown on the way. It stores the terminal record, and its
  \<open>finally\<close> block stops the keep-alive and forgets the pending entry. Between the
  two the function waits for the storage call. Storage calls are answered in order,
  so a handler that goes on in between was waiting on an earlier call: it is a status
  check that read before the record was stored, and it does what it would have done
  just before. So the second stretch is taken as one step. \<open>startTime\<close> is the local
  constant the function read before the fetch.
\<close>

datatype try_outcome = Returned fetch_result | Threw string string

definition handleResumeScoreRequest_begin :: "string \<Rightarrow> score_payload \<Rightarrow> time \<Rightarrow> bg \<Rightarrow> bg" where
  "handleResumeScoreRequest_begin requestId payload now s =
     saveRequestState requestId
       (ProcessingState now (case jd_url payload of None \<Rightarrow> [] | Some u \<Rightarrow> u))
       (startKeepAlive s)"

definition handleResumeScoreRequest_finally :: "string \<Rightarrow> bg \<Rightarrow> bg" where
  "handleResumeScoreRequest_finally requestId s =
     (stopKeepAlive s)\<lparr>pendingRequests := (pendingRequests (stopKeepAlive s))(requestId := None)\<rparr>"

definition handleResumeScoreRequest_settle ::
    "string \<Rightarrow> time \<Rightarrow> try_outcome \<Rightarrow> time \<Rightarrow> bg \<Rightarrow> bg" where
  "handleResumeScoreRequest_settle requestId startTime outcome now s =
     handleResumeScoreRequest_finally requestId
       (case outcome of
          Returned res \<Rightarrow>
            if \<not> res_ok res
            then saveRequestState requestId
                   (ErrorState (js_or (res_data res) (js_or (res_error res) (Str ''Unknown error'')))
                      now (round_seconds (now - startTime))) s
            else saveRequestState requestId
                   (CompleteState (res_data res) now (round_seconds (now - startTime))) s
        | Threw name msg \<Rightarrow>
            saveRequestState requestId
              (ErrorState (Str (err_text name msg)) now (round_seconds (now - startTime))) s)"

text \<open>
  The whole second stretch for a given behaviour of the network: the background
  context after it, or nothing when \<open>fetchWithTimeout\<close> never returns and the second
  stretch never runs.
\<close>

definition score_fetch_returns :: "string \<Rightarrow> time \<Rightarrow> fetch_behaviour \<Rightarrow> int \<Rightarrow> bg \<Rightarrow> bg option" where
  "score_fetch_returns requestId startTime net lag s =
     (case fetchWithTimeout REQUEST_TIMEOUT startTime net lag of
        None \<Rightarrow> None
      | Some (res, now) \<Rightarrow>
          Some (handleResumeScoreRequest_settle requestId startTime (Returned res) now s))"

subsection \<open>The message listener\<close>

datatype status_reply =
    ReplyProcessing int
  | ReplyNotFound
  | ReplyComplete jsval int
  | ReplyError jsval int

datatype reply = Started string | StatusReply status_reply | CancelOk | NoReply

text \<open>
  \<open>BG_RESUME_SCORE\<close>: the request id is \<open>score_\<close>, the clock, \<open>_\<close> and a random suffix, chosen by the
  listener; here it comes with the message. The listener records the pending entry,
  starts \<open>handleResumeScoreRequest\<close> without waiting for it and answers at once.
\<close>

definition on_BG_RESUME_SCORE :: "string \<Rightarrow> score_payload \<Rightarrow> time \<Rightarrow> bg \<Rightarrow> bg \<times> reply" where
  "on_BG_RESUME_SCORE requestId payload now s =
     (handleResumeScoreRequest_begin requestId payload now
        (s\<lparr>pendingRequests := (pendingRequests s)(requestId \<mapsto> now)\<rparr>),
      Started requestId)"

text \<open>
  \<open>CHECK_REQUEST_STATUS\<close> runs in two stretches, and other handlers can run between
  them. The first reads the record (\<open>await getRequestState\<close>) and waits. The second
  goes on with the record that was read: it answers from it, and for a terminal
  record it removes the stored record first. \<open>call\<close> numbers the call of the handler.
\<close>

definition on_CHECK_REQUEST_STATUS_read :: "nat \<Rightarrow> string \<Rightarrow> bg \<Rightarrow> bg \<times> reply" where
  "on_CHECK_REQUEST_STATUS_read call requestId s =
     (s\<lparr>statusChecks := (statusChecks s)(call \<mapsto> (requestId, getRequestState requestId s))\<rparr>,
      NoReply)"

definition on_CHECK_REQUEST_STATUS_resume :: "nat \<Rightarrow> time \<Rightarrow> bg \<Rightarrow> bg \<times> reply" where
  "on_CHECK_REQUEST_STATUS_resume call now s =
     (case statusChecks s call of
        None \<Rightarrow> (s, NoReply)
      | Some (requestId, state) \<Rightarrow>
          (case state of
             None \<Rightarrow>
               (case pendingRequests s requestId of
                  Some startTime \<Rightarrow>
                    (s\<lparr>statusChecks := (statusChecks s)(call := None)\<rparr>,
                     StatusReply (ReplyProcessing (now - startTime)))
                | None \<Rightarrow>
                    (s\<lparr>statusChecks := (statusChecks s)(call := None)\<rparr>,
                     StatusReply ReplyNotFound))
           | Some (CompleteState dat completedTime elapsed) \<Rightarrow>
               (clearRequestState requestId (s\<lparr>statusChecks := (statusChecks s)(call := None)\<rparr>),
                StatusReply (ReplyComplete dat elapsed))
           | Some (ErrorState err completedTime elapsed) \<Rightarrow>
               (clearRequestState requestId (s\<lparr>statusChecks := (statusChecks s)(call := None)\<rparr>),
                StatusReply (ReplyError err elapsed))
           | Some (ProcessingState startTime url) \<Rightarrow>
               (s\<lparr>statusChecks := (statusChecks s)(call := None)\<rparr>,
                StatusReply (ReplyProcessing (now - startTime)))))"

text \<open>
  \<open>CANCEL_REQUEST\<close> removes the record, waits for the storage call, and then forgets
  the pending entry and stops the keep-alive. As with the second stretch of
  \<open>handleResumeScoreRequest\<close>, a status check that goes on in between read before the
  record was removed and does what it would have done just before, so the handler is
  taken as one step.
\<close>

definition on_CANCEL_REQUEST :: "string \<Rightarrow> bg \<Rightarrow> bg \<times> reply" where
  "on_CANCEL_REQUEST requestId s =
     (stopKeepAlive
        ((clearRequestState requestId s)
           \<lparr>pendingRequests := (pendingRequests (clearRequestState requestId s))(requestId := None)\<rparr>),
      CancelOk)"

text \<open>
  The events of one life of the background context, each an uninterrupted stretch of
  code: a score request, the two stretches of a status check, a cancel, and the
  return of the fetch of a request (with the local start time of its
  \<open>handleResumeScoreRequest\<close>, how its \<open>try\<close> block went on and the clock). The keep-alive
  ticks and the push of the result to the popup touch no request record and are left
  out.
\<close>

datatype bg_event =
    ScoreRequest string score_payload time
  | CheckRead nat string
  | CheckResume nat time
  | CancelRequest string
  | FetchReturned string time try_outcome time

fun bg_step :: "bg_event \<Rightarrow> bg \<Rightarrow> bg \<times> reply" where
  "bg_step (ScoreRequest requestId payload now) s = on_BG_RESUME_SCORE requestId payload now s"
| "bg_step (CheckRead call requestId) s = on_CHECK_REQUEST_STATUS_read call requestId s"
| "bg_step (CheckResume call now) s = on_CHECK_REQUEST_STATUS_resume call now s"
| "bg_step (CancelRequest requestId) s = on_CANCEL_REQUEST requestId s"
| "bg_step (FetchReturned requestId startTime res now) s =
     (handleResumeScoreRequest_settle requestId startTime res now s, NoReply)"

fun bg_run :: "bg_event list \<Rightarrow> bg \<Rightarrow> bg" where
  "bg_run [] s = s"
| "bg_run (e # es) s = bg_run es (fst (bg_step e s))"

definition bg_reply :: "bg_event \<Rightarrow> bg \<Rightarrow> reply" where
  "bg_reply e s = snd (bg_step e s)"

text \<open>
  A trace is well formed when every request id is issued at most once (the listener
  makes a fresh one for every \<open>BG_RESUME_SCORE\<close>) and the fetch of a request returns at
  most once, after the request was started. \<open>started\<close> and \<open>returned\<close> list the ids seen
  so far.
\<close>

fun wf_trace :: "string list \<Rightarrow> string list \<Rightarrow> bg_event list \<Rightarrow> bool" where
  "wf_trace started returned [] = True"
| "wf_trace started returned (ScoreRequest requestId payload now # es) =
     (requestId \<notin> set started \<and> wf_trace (requestId # started) returned es)"
| "wf_trace started returned (FetchReturned requestId startTime res now # es) =
     (requestId \<in> set started \<and> requestId \<notin> set returned
      \<and> wf_trace started (requestId # returned) es)"
| "wf_trace started returned (CheckRead call requestId # es) = wf_trace started returned es"
| "wf_trace started returned (CheckResume call now # es) = wf_trace started returned es"
| "wf_trace started returned (CancelRequest requestId # es) = wf_trace started returned es"

text \<open>The ids started and returned once a trace has run, and the invariant of the run.\<close>

fun started_by :: "string list \<Rightarrow> bg_event list \<Rightarrow> string list" where
  "started_by started [] = started"
| "started_by started (ScoreRequest requestId payload now # es) = started_by (requestId # started) es"
| "started_by started (FetchReturned requestId startTime res now # es) = started_by started es"
| "started_by started (CheckRead call requestId # es) = started_by started es"
| "started_by started (CheckResume call now # es) = started_by started es"
| "started_by started (CancelRequest requestId # es) = started_by started es"

fun returned_by :: "string list \<Rightarrow> bg_event list \<Rightarrow> string list" where
  "returned_by returned [] = returned"
| "returned_by returned (ScoreRequest requestId payload now # es) = returned_by returned es"
| "returned_by returned (FetchReturned requestId startTime res now # es) = returned_by (requestId # returned) es"
| "returned_by returned (CheckRead call requestId # es) = returned_by returned es"
| "returned_by returned (CheckResume call now # es) = returned_by returned es"
| "returned_by returned (CancelRequest requestId # es) = returned_by returned es"

definition bg_inv :: "string list \<Rightarrow> string list \<Rightarrow> bg \<Rightarrow> bool" where
  "bg_inv started returned s =
     ((\<forall>i. i \<notin> set started \<longrightarrow> requests s i = None)
      \<and> (\<forall>i r. requests s i = Some r \<and> status_of r \<noteq> Processing \<longrightarrow> i \<in> set returned)
      \<and> (\<forall>c i r. statusChecks s c = Some (i, Some r) \<and> status_of r \<noteq> Processing
                  \<longrightarrow> i \<in> set returned)
      \<and> (\<forall>i. i \<in> set returned \<longrightarrow> pendingRequests s i = None)
      \<and> set returned \<subseteq> set started)"

section \<open>popup.js: the polling controller\<close>

text \<open>The popup has its own copy of the timeout constant.\<close>

definition POPUP_REQUEST_TIMEOUT :: int where
  "POPUP_REQUEST_TIMEOUT = 2 * 60 * 1000"

definition POLLING_INTERVAL :: int where
  "POLLING_INTERVAL = 2000"

text \<open>
  What the status element shows: the loading panel (with the elapsed and remaining
  milliseconds it prints), the client-side timeout message, a score, the failure
  message, the not-found message, the cancellation note, or anything else.
\<close>

datatype view =
    ViewOther
  | ViewLoading int int
  | ViewTimeout
  | ViewScore jsval
  | ViewFailed jsval
  | ViewNotFound
  | ViewCancelled

record popup =
  currentRequestId :: "string option"
  pollingInterval :: bool
  pollingStartTime :: "time option"
  status_view :: view
  last_score_result :: "jsval option"
  last_score_jd_url :: "string option"

definition startPolling :: "string \<Rightarrow> time \<Rightarrow> popup \<Rightarrow> popup" where
  "startPolling requestId now p =
     p\<lparr>currentRequestId := Some requestId, pollingStartTime := Some now, pollingInterval := True\<rparr>"

definition stopPolling :: "popup \<Rightarrow> popup" where
  "stopPolling p =
     p\<lparr>pollingInterval := False, currentRequestId := None, pollingStartTime := None\<rparr>"

text \<open>
  \<open>checkRequestStatus\<close> runs in two stretches. The first, at popup clock \<open>now\<close>, either
  finishes on the spot (no request, or the client-side timeout) or sends
  \<open>CHECK_REQUEST_STATUS\<close> for a request id and waits.
\<close>

datatype poll_begin = PollDone popup | PollSend string int

definition checkRequestStatus_begin :: "time \<Rightarrow> popup \<Rightarrow> poll_begin" where
  "checkRequestStatus_begin now p =
     (case currentRequestId p of
        None \<Rightarrow> PollDone p
      | Some requestId \<Rightarrow>
          (let elapsed = now - (case pollingStartTime p of None \<Rightarrow> 0 | Some t \<Rightarrow> t)
           in if elapsed \<ge> POPUP_REQUEST_TIMEOUT
              then PollDone ((stopPolling p)\<lparr>status_view := ViewTimeout\<rparr>)
              else PollSend requestId elapsed))"

text \<open>
  The second stretch, with the elapsed time computed in the first: the answer of the
  background context has arrived, or \<open>sendBgMessage\<close> has rejected and the \<open>catch\<close>
  only logs. \<open>tab_url\<close> is the address of the active tab.
\<close>

definition checkRequestStatus_resume ::
    "int \<Rightarrow> status_reply option \<Rightarrow> string option \<Rightarrow> popup \<Rightarrow> popup" where
  "checkRequestStatus_resume elapsed response tab_url p =
     (case response of
        None \<Rightarrow> p
      | Some (ReplyProcessing e) \<Rightarrow>
          p\<lparr>status_view := ViewLoading elapsed (POPUP_REQUEST_TIMEOUT - elapsed)\<rparr>
      | Some (ReplyComplete dat e) \<Rightarrow>
          (stopPolling p)\<lparr>last_score_result := Some dat, last_score_jd_url := tab_url,
                           status_view := ViewScore dat\<rparr>
      | Some (ReplyError err e) \<Rightarrow>
          (stopPolling p)\<lparr>status_view := ViewFailed (js_or err (Str ''Unknown error''))\<rparr>
      | Some ReplyNotFound \<Rightarrow> (stopPolling p)\<lparr>status_view := ViewNotFound\<rparr>)"

text \<open>
  \<open>cancelCurrentRequest\<close>: the request id it sends \<open>CANCEL_REQUEST\<close> for, if any, and
  what it does once the message has been answered.
\<close>

definition cancelCurrentRequest_send :: "popup \<Rightarrow> string option" where
  "cancelCurrentRequest_send p = currentRequestId p"

definition cancelCurrentRequest_resume :: "popup \<Rightarrow> popup" where
  "cancelCurrentRequest_resume p = (stopPolling p)\<lparr>status_view := ViewCancelled\<rparr>"

text \<open>Whether \<open>fetch()\<close> settles within the timeout.\<close>

fun settles_within :: "int \<Rightarrow> fetch_behaviour \<Rightarrow> bool" where
  "settles_within timeout (Responds dt ok st body) = (dt \<le> timeout)"
| "settles_within timeout (Rejects dt name msg) = (dt \<le> timeout)"
| "settles_within timeout Hangs = False"

section \<open>More JavaScript string methods\<close>

text \<open>
  Text is ASCII: \<open>trim\<close> and the \<open>\s\<close> of a regular expression remove blanks, tabs and
  line breaks, \<open>toLowerCase\<close> folds the letters A to Z, and \<open>length\<close> counts characters.
\<close>

definition is_ws :: "char \<Rightarrow> bool" where
  "is_ws c = (c = CHR '' '' \<or> c = CHR 0x09 \<or> c = CHR 0x0A \<or> c = CHR 0x0B \<or> c = CHR 0x0C \<or> c = CHR 0x0D)"

definition trim :: "string \<Rightarrow> string" where
  "trim s = rev (dropWhile is_ws (rev (dropWhile is_ws s)))"

definition lower_char :: "char \<Rightarrow> char" where
  "lower_char c =
     (if 65 \<le> (of_char c :: nat) \<and> (of_char c :: nat) \<le> 90 then char_of ((of_char c :: nat) + 32) else c)"

definition toLowerCase :: "string \<Rightarrow> string" where
  "toLowerCase s = map lower_char s"

fun str_includes :: "string \<Rightarrow> string \<Rightarrow> bool" where
  "str_includes [] t = (t = [])"
| "str_includes (c # cs) t = (startsWith (c # cs) t \<or> str_includes cs t)"

text \<open>\<open>a || b\<close> on strings, and \<open>s || null\<close>.\<close>

definition or_else :: "string \<Rightarrow> string \<Rightarrow> string" where
  "or_else a b = (if a \<noteq> [] then a else b)"

definition or_null :: "string \<Rightarrow> string option" where
  "or_null s = (if s \<noteq> [] then Some s else None)"

fun first_index :: "('a \<Rightarrow> bool) \<Rightarrow> 'a list \<Rightarrow> nat option" where
  "first_index P [] = None"
| "first_index P (x # xs) = (if P x then Some 0 else map_option Suc (first_index P xs))"

section \<open>The document\<close>

text \<open>
  The page is the list of its elements in document order. An element carries what the
  scripts read from it (tag name, id, name, type, placeholder, three attributes, the
  rendered text, the computed style, whether it has an offset parent, the options of a
  select), the index of its parent element, and what the scripts write: the value, the
  attached files and the events it has received, oldest first. A property that an
  element does not have reads as the empty string.
\<close>

record select_option =
  opt_text :: string
  opt_value :: string

record js_file =
  file_name :: string
  file_type :: string
  file_bytes :: string

datatype dom_event = Click | Focus | InputEvent | ChangeEvent

record element =
  tagName :: string
  el_id :: string
  el_name :: string
  el_type :: string
  el_placeholder :: string
  attr_aria_label :: "string option"
  attr_aria_labelledby :: "string option"
  attr_for :: "string option"
  innerText :: string
  parentIndex :: "nat option"
  display :: string
  visibility :: string
  offsetParent_null :: bool
  el_options :: "select_option list"
  el_value :: string
  el_files :: "js_file list"
  el_events :: "dom_event list"

type_synonym document = "element list"

definition tag_is :: "element \<Rightarrow> string \<Rightarrow> bool" where
  "tag_is el t = (toLowerCase (tagName el) = t)"

definition getElementById :: "document \<Rightarrow> string \<Rightarrow> nat option" where
  "getElementById doc i = (if i = [] then None else first_index (\<lambda>e. el_id e = i) doc)"

text \<open>
  \<open>document.querySelector('label[for="ID"]')\<close>. The id is pasted into the selector; the
  model takes ids and names free of quotes, backslashes and line breaks, for which
  the selector compares the attribute with the text as it stands.
\<close>

definition querySelector_label_for :: "document \<Rightarrow> string \<Rightarrow> nat option" where
  "querySelector_label_for doc i = first_index (\<lambda>e. tag_is e ''label'' \<and> attr_for e = Some i) doc"

definition parentElement :: "document \<Rightarrow> nat \<Rightarrow> nat option" where
  "parentElement doc i =
     (if i < length doc
      then (case parentIndex (doc ! i) of
              None \<Rightarrow> None
            | Some p \<Rightarrow> if p < length doc then Some p else None)
      else None)"

text \<open>The ancestors of an element, nearest first; the fuel is the size of the document.\<close>

fun ancestors_upto :: "nat \<Rightarrow> document \<Rightarrow> nat \<Rightarrow> nat list" where
  "ancestors_upto 0 doc i = []"
| "ancestors_upto (Suc n) doc i =
     (case parentElement doc i of None \<Rightarrow> [] | Some p \<Rightarrow> p # ancestors_upto n doc p)"

definition ancestors :: "document \<Rightarrow> nat \<Rightarrow> nat list" where
  "ancestors doc i = ancestors_upto (length doc) doc i"

definition closest_label :: "document \<Rightarrow> nat \<Rightarrow> nat option" where
  "closest_label doc i = find (\<lambda>j. tag_is (doc ! j) ''label'') (i # ancestors doc i)"

text \<open>The earlier children of the same parent, nearest first.\<close>

definition previous_siblings :: "document \<Rightarrow> nat \<Rightarrow> nat list" where
  "previous_siblings doc i =
     rev (filter (\<lambda>j. parentIndex (doc ! j) = parentIndex (doc ! i)) [0..<i])"

definition is_heading :: "element \<Rightarrow> bool" where
  "is_heading e = (tag_is e ''h1'' \<or> tag_is e ''h2'' \<or> tag_is e ''h3'' \<or> tag_is e ''h4''
                   \<or> tag_is e ''strong'' \<or> tag_is e ''b'')"

text \<open>\<open>node.querySelector("h1,h2,h3,h4,strong,b")\<close>: the first such descendant of the node.\<close>

definition querySelector_heading :: "document \<Rightarrow> nat \<Rightarrow> nat option" where
  "querySelector_heading doc node =
     find (\<lambda>j. is_heading (doc ! j) \<and> node \<in> set (ancestors doc j)) [0..<length doc]"

text \<open>
  An element with a tag and a parent and nothing else set: shown (\<open>display: block\<close>,
  \<open>visibility: visible\<close>, with an offset parent), no id, no text. The examples build
  their pages from it.
\<close>

definition plain_element :: "string \<Rightarrow> nat option \<Rightarrow> element" where
  "plain_element t p =
     \<lparr>tagName = t, el_id = [], el_name = [], el_type = [], el_placeholder = [],
      attr_aria_label = None, attr_aria_labelledby = None, attr_for = None,
      innerText = [], parentIndex = p, display = ''block'', visibility = ''visible'',
      offsetParent_null = False, el_options = [], el_value = [], el_files = [],
      el_events = []\<rparr>"

section \<open>utils/detect.js: getLabelForElement\<close>

text \<open>The trimmed text of an element that a query found, empty when it found none.\<close>

definition text_of :: "document \<Rightarrow> nat option \<Rightarrow> string" where
  "text_of doc found = (case found of None \<Rightarrow> [] | Some j \<Rightarrow> trim (innerText (doc ! j)))"

text \<open>The loop of strategy 4 over the previous siblings it visits: the label it returns, if any.\<close>

fun sibling_label :: "document \<Rightarrow> nat list \<Rightarrow> string option" where
  "sibling_label doc [] = None"
| "sibling_label doc (j # js) =
     (if tag_is (doc ! j) ''label'' \<and> trim (innerText (doc ! j)) \<noteq> []
      then Some (trim (innerText (doc ! j)))
      else if innerText (doc ! j) \<noteq> [] \<and> length (trim (innerText (doc ! j))) < 80
      then Some (trim (innerText (doc ! j)))
      else sibling_label doc js)"

text \<open>The loop of strategy 6 over the ancestors it visits.\<close>

fun heading_label :: "document \<Rightarrow> nat list \<Rightarrow> string option" where
  "heading_label doc [] = None"
| "heading_label doc (node # nodes) =
     (if text_of doc (querySelector_heading doc node) \<noteq> []
      then Some (text_of doc (querySelector_heading doc node))
      else heading_label doc nodes)"

definition getLabelForElement :: "document \<Rightarrow> nat \<Rightarrow> string" where
  "getLabelForElement doc i =
     (let el = doc ! i;
          lab = (if el_id el \<noteq> [] then querySelector_label_for doc (el_id el) else None);
          parentLabel = closest_label doc i;
          ai = (case attr_aria_labelledby el of
                  None \<Rightarrow> None
                | Some aria \<Rightarrow> if aria \<noteq> [] then getElementById doc aria else None)
      in if text_of doc lab \<noteq> [] then text_of doc lab
         else if text_of doc parentLabel \<noteq> [] then text_of doc parentLabel
         else if text_of doc ai \<noteq> [] then text_of doc ai
         else (case sibling_label doc (take 4 (previous_siblings doc i)) of
                 Some t \<Rightarrow> t
               | None \<Rightarrow>
                   if trim (el_placeholder el) \<noteq> [] then trim (el_placeholder el)
                   else (case attr_aria_label el of
                           Some a \<Rightarrow>
                             if a \<noteq> [] then trim a
                             else (case heading_label doc (take 6 (ancestors doc i)) of
                                     Some h \<Rightarrow> h | None \<Rightarrow> ''(no-label)'')
                         | None \<Rightarrow>
                             (case heading_label doc (take 6 (ancestors doc i)) of
                                Some h \<Rightarrow> h | None \<Rightarrow> ''(no-label)''))))"



section \<open>utils/detect.js: extractFields\<close>

record field =
  tag :: string
  f_name :: "string option"
  f_id :: "string option"
  placeholder :: "string option"
  f_type :: "string option"
  aria_label :: "string option"
  label_text :: string

definition is_form_control :: "element \<Rightarrow> bool" where
  "is_form_control e = (tag_is e ''input'' \<or> tag_is e ''textarea'' \<or> tag_is e ''select'')"

definition is_visible :: "element \<Rightarrow> bool" where
  "is_visible e = (display e \<noteq> ''none'' \<and> visibility e \<noteq> ''hidden'' \<and> \<not> offsetParent_null e)"

definition describe :: "document \<Rightarrow> nat \<Rightarrow> field" where
  "describe doc i =
     \<lparr>tag = toLowerCase (tagName (doc ! i)),
      f_name = or_null (el_name (doc ! i)),
      f_id = or_null (el_id (doc ! i)),
      placeholder = or_null (el_placeholder (doc ! i)),
      f_type = or_null (el_type (doc ! i)),
      aria_label = (case attr_aria_label (doc ! i) of None \<Rightarrow> None | Some a \<Rightarrow> or_null a),
      label_text = getLabelForElement doc i\<rparr>"

definition visible_fields :: "document \<Rightarrow> field list" where
  "visible_fields doc =
     map (describe doc)
       (filter (\<lambda>i. is_form_control (doc ! i) \<and> is_visible (doc ! i)) [0..<length doc])"

definition opt_text_or_empty :: "string option \<Rightarrow> string" where
  "opt_text_or_empty v = (case v of None \<Rightarrow> [] | Some s \<Rightarrow> s)"

definition field_key :: "field \<Rightarrow> string" where
  "field_key f = opt_text_or_empty (f_id f) @ ''::'' @ opt_text_or_empty (f_name f) @ ''::'' @ label_text f"

text \<open>The loop that removes duplicates, with the set \<open>seen\<close> and the array \<open>out\<close>.\<close>

fun dedupe :: "string list \<Rightarrow> field list \<Rightarrow> field list \<Rightarrow> field list" where
  "dedupe seen out [] = out"
| "dedupe seen out (f # fs) =
     (if field_key f \<in> set seen then dedupe seen out fs
      else dedupe (field_key f # seen) (out @ [f]) fs)"

definition extractFields :: "document \<Rightarrow> field list" where
  "extractFields doc = dedupe [] [] (visible_fields doc)"

text \<open>The identity of a descriptor as the specification has it.\<close>

definition field_identity :: "field \<Rightarrow> string option \<times> string option \<times> string" where
  "field_identity f = (f_id f, f_name f, label_text f)"

text \<open>What the loop appends to \<open>out\<close>, given the keys already seen.\<close>

fun kept :: "string list \<Rightarrow> field list \<Rightarrow> field list" where
  "kept seen [] = []"
| "kept seen (f # fs) =
     (if field_key f \<in> set seen then kept seen fs else f # kept (field_key f # seen) fs)"



definition page_blank_sibling :: document where
  "page_blank_sibling =
     [plain_element ''FORM'' None,
      (plain_element ''DIV'' (Some 0))\<lparr>innerText := '' ''\<rparr>,
      (plain_element ''INPUT'' (Some 0))\<lparr>el_type := ''text'', el_placeholder := ''Your email''\<rparr>]"

definition page_blank_aria_label :: document where
  "page_blank_aria_label =
     [plain_element ''FORM'' None,
      (plain_element ''INPUT'' (Some 0))\<lparr>el_type := ''text'', attr_aria_label := Some '' ''\<rparr>]"

definition page_colliding_keys :: document where
  "page_colliding_keys =
     [plain_element ''FORM'' None,
      (plain_element ''INPUT'' (Some 0))
        \<lparr>el_type := ''text'', el_id := ''a::b'', el_placeholder := ''x''\<rparr>,
      (plain_element ''INPUT'' (Some 0))
        \<lparr>el_type := ''text'', el_id := ''a'', el_name := ''b::'', el_placeholder := ''x''\<rparr>]"

section \<open>Numbers, splitting and the regular expressions of autofill.js\<close>

text \<open>
  A JavaScript number as \<open>parseFloat\<close> reads it from decimal text: not-a-number, or
  \<open>Dec m e\<close> for m times ten to the power e. The model computes with these exactly;
  JavaScript rounds to doubles, which agrees for numbers of up to 15 significant
  digits within the range of a double.
\<close>

datatype jsnum = NaN | Dec int int

definition is_digit :: "char \<Rightarrow> bool" where
  "is_digit c = (48 \<le> (of_char c :: nat) \<and> (of_char c :: nat) \<le> 57)"

definition is_word_char :: "char \<Rightarrow> bool" where
  "is_word_char c =
     (is_digit c \<or> (65 \<le> (of_char c :: nat) \<and> (of_char c :: nat) \<le> 90)
      \<or> (97 \<le> (of_char c :: nat) \<and> (of_char c :: nat) \<le> 122) \<or> c = CHR ''_'')"

definition nat_of_digits :: "string \<Rightarrow> nat" where
  "nat_of_digits ds = foldl (\<lambda>n c. 10 * n + ((of_char c :: nat) - 48)) 0 ds"

text \<open>\<open>parseInt\<close> of a run of digits.\<close>

definition parseInt :: "string \<Rightarrow> int" where
  "parseInt ds = int (nat_of_digits ds)"

text \<open>An optional sign in front of a text: the sign and the rest.\<close>

fun take_sign :: "string \<Rightarrow> int \<times> string" where
  "take_sign [] = (1, [])"
| "take_sign (c # cs) =
     (if c = CHR ''-'' then (- 1, cs) else if c = CHR ''+'' then (1, cs) else (1, c # cs))"

text \<open>The exponent part \<open>e\<close>, sign, digits at the head of a text, zero when there is none.\<close>

fun exponent_part :: "string \<Rightarrow> int" where
  "exponent_part [] = 0"
| "exponent_part (c # cs) =
     (if c = CHR ''e'' \<or> c = CHR ''E''
      then (case take_sign cs of
              (sg, r) \<Rightarrow> if takeWhile is_digit r = [] then 0
                         else sg * int (nat_of_digits (takeWhile is_digit r)))
      else 0)"

definition parseFloat :: "string \<Rightarrow> jsnum" where
  "parseFloat s =
     (case take_sign (dropWhile is_ws s) of
        (sg, s2) \<Rightarrow>
          (let intpart = takeWhile is_digit s2;
               r1 = dropWhile is_digit s2;
               frac = (case r1 of [] \<Rightarrow> []
                       | c # cs \<Rightarrow> if c = CHR ''.'' then takeWhile is_digit cs else []);
               r2 = (case r1 of [] \<Rightarrow> []
                     | c # cs \<Rightarrow> if c = CHR ''.'' then dropWhile is_digit cs else r1)
           in if intpart = [] \<and> frac = [] then NaN
              else Dec (sg * int (nat_of_digits (intpart @ frac)))
                       (exponent_part r2 - int (length frac))))"

fun isNaN :: "jsnum \<Rightarrow> bool" where
  "isNaN NaN = True"
| "isNaN (Dec m e) = False"

fun num_positive :: "jsnum \<Rightarrow> bool" where
  "num_positive NaN = False"
| "num_positive (Dec m e) = (m > 0)"

fun num_ge :: "jsnum \<Rightarrow> int \<Rightarrow> bool" where
  "num_ge NaN n = False"
| "num_ge (Dec m e) n = (if e \<ge> 0 then m * 10 ^ nat e \<ge> n else m \<ge> n * 10 ^ nat (- e))"

fun num_le :: "jsnum \<Rightarrow> int \<Rightarrow> bool" where
  "num_le NaN n = False"
| "num_le (Dec m e) n = (if e \<ge> 0 then m * 10 ^ nat e \<le> n else m \<le> n * 10 ^ nat (- e))"

text \<open>
  The text a template literal prints for a positive number \<open>Dec m e\<close>: the digits
  without trailing zeros, in plain notation when the decimal point lies within 21
  places after or 6 places before the first digit, else in exponent notation.
\<close>

definition num_to_string :: "nat \<Rightarrow> int \<Rightarrow> string" where
  "num_to_string m e =
     (let all_digits = show_nat m;
          ds = rev (dropWhile (\<lambda>c. c = CHR ''0'') (rev all_digits));
          k = int (length ds);
          n = k + (e + (int (length all_digits) - k))
      in if k \<le> n \<and> n \<le> 21 then ds @ replicate (nat (n - k)) (CHR ''0'')
         else if 0 < n \<and> n \<le> 21 then take (nat n) ds @ ''.'' @ drop (nat n) ds
         else if - 6 < n \<and> n \<le> 0 then ''0.'' @ replicate (nat (- n)) (CHR ''0'') @ ds
         else take 1 ds @ (if k = 1 then [] else ''.'' @ drop 1 ds) @ ''e''
              @ (if n - 1 < 0 then ''-'' else ''+'') @ show_nat (nat (abs (n - 1))))"

text \<open>\<open>s.split(/\s+/)\<close>: the pieces between the runs of white space.\<close>

fun split_from :: "string \<Rightarrow> bool \<Rightarrow> string \<Rightarrow> string list" where
  "split_from cur in_ws [] = [rev cur]"
| "split_from cur in_ws (c # cs) =
     (if is_ws c
      then (if in_ws then split_from cur True cs else rev cur # split_from [] True cs)
      else split_from (c # cur) False cs)"

definition split_ws :: "string \<Rightarrow> string list" where
  "split_ws s = split_from [] False s"

text \<open>
  The regular expressions of the file are sequences of character classes with a
  repetition count, and word boundaries. A class takes between \<open>lo\<close> and \<open>hi\<close>
  characters (no upper bound for \<open>None\<close>), as many as it can first. Matching runs on
  the character before the position (if any) and the rest of the text, and gives
  the rest after the first match in the order in which JavaScript backtracks.
\<close>

datatype rx_item = Cls "char \<Rightarrow> bool" nat "nat option" | Boundary

definition at_boundary :: "char option \<Rightarrow> string \<Rightarrow> bool" where
  "at_boundary prev rest =
     ((case prev of None \<Rightarrow> False | Some c \<Rightarrow> is_word_char c)
      \<noteq> (case rest of [] \<Rightarrow> False | c # cs \<Rightarrow> is_word_char c))"

fun first_some :: "'a option list \<Rightarrow> 'a option" where
  "first_some [] = None"
| "first_some (x # xs) = (case x of Some y \<Rightarrow> Some y | None \<Rightarrow> first_some xs)"

definition char_before :: "char option \<Rightarrow> string \<Rightarrow> nat \<Rightarrow> char option" where
  "char_before prev rest k = (if k = 0 then prev else Some (rest ! (k - 1)))"

fun rx_match :: "rx_item list \<Rightarrow> char option \<Rightarrow> string \<Rightarrow> string option" where
  "rx_match [] prev rest = Some rest"
| "rx_match (Boundary # items) prev rest =
     (if at_boundary prev rest then rx_match items prev rest else None)"
| "rx_match (Cls P lo hi # items) prev rest =
     (let run = length (takeWhile P rest);
          most = (case hi of None \<Rightarrow> run | Some h \<Rightarrow> min h run)
      in first_some
           (map (\<lambda>k. rx_match items (char_before prev rest k) (drop k rest))
                (rev [lo..<Suc most])))"

text \<open>
  The first match of one of the alternatives (tried in order) at the earliest
  position: the matched text, as \<open>s.match(re)[0]\<close> gives it.
\<close>

fun rx_search :: "rx_item list list \<Rightarrow> char option \<Rightarrow> string \<Rightarrow> string option" where
  "rx_search alts prev [] =
     map_option (\<lambda>rest. []) (first_some (map (\<lambda>items. rx_match items prev []) alts))"
| "rx_search alts prev (c # cs) =
     (case first_some (map (\<lambda>items. rx_match items prev (c # cs)) alts) of
        Some rest \<Rightarrow> Some (take (length (c # cs) - length rest) (c # cs))
      | None \<Rightarrow> rx_search alts (Some c) cs)"

definition is_email_char :: "char \<Rightarrow> bool" where
  "is_email_char c = (is_word_char c \<or> c = CHR ''.'' \<or> c = CHR ''-'')"

text \<open>\<open>/[\w\.-]+@[\w\.-]+\.\w+/\<close>\<close>

definition email_rx :: "rx_item list list" where
  "email_rx =
     [[Cls is_email_char 1 None, Cls (\<lambda>c. c = CHR ''@'') 1 (Some 1), Cls is_email_char 1 None,
       Cls (\<lambda>c. c = CHR ''.'') 1 (Some 1), Cls is_word_char 1 None]]"

text \<open>\<open>/(\+?\d{1,3}[\s-]?)?(\d{6,12})/\<close>: with the optional group, then without it.\<close>

definition phone_rx :: "rx_item list list" where
  "phone_rx =
     [[Cls (\<lambda>c. c = CHR ''+'') 0 (Some 1), Cls is_digit 1 (Some 3),
       Cls (\<lambda>c. is_ws c \<or> c = CHR ''-'') 0 (Some 1), Cls is_digit 6 (Some 12)],
      [Cls is_digit 6 (Some 12)]]"

text \<open>
  The pattern \<open>\bN\b\<close> for the text N of a number: a digit, \<open>e\<close> or \<open>-\<close> stands for
  itself, a dot for any character but a line break, and \<open>+\<close> repeats the character
  before it.
\<close>

fun number_items :: "string \<Rightarrow> rx_item list" where
  "number_items [] = []"
| "number_items [c] =
     [if c = CHR ''.'' then Cls (\<lambda>x. x \<noteq> CHR 0x0A \<and> x \<noteq> CHR 0x0D) 1 (Some 1)
      else Cls (\<lambda>x. x = c) 1 (Some 1)]"
| "number_items (c # d # cs) =
     (if d = CHR ''+'' then Cls (\<lambda>x. x = c) 1 None # number_items cs
      else (if c = CHR ''.'' then Cls (\<lambda>x. x \<noteq> CHR 0x0A \<and> x \<noteq> CHR 0x0D) 1 (Some 1)
            else Cls (\<lambda>x. x = c) 1 (Some 1)) # number_items (d # cs))"

definition number_pattern_test :: "jsnum \<Rightarrow> string \<Rightarrow> bool" where
  "number_pattern_test v s =
     (case v of
        NaN \<Rightarrow> False
      | Dec m e \<Rightarrow>
          rx_search [Boundary # number_items (num_to_string (nat m) e) @ [Boundary]] None s \<noteq> None)"

text \<open>\<open>optText.match(/\d+/g)\<close>: the runs of digits of a text, none for \<open>null\<close>.\<close>

fun digit_runs_from :: "string \<Rightarrow> string \<Rightarrow> string list" where
  "digit_runs_from cur [] = (if cur = [] then [] else [rev cur])"
| "digit_runs_from cur (c # cs) =
     (if is_digit c then digit_runs_from (c # cur) cs
      else if cur = [] then digit_runs_from [] cs
      else rev cur # digit_runs_from [] cs)"

definition digit_runs :: "string \<Rightarrow> string list" where
  "digit_runs s = digit_runs_from [] s"

section \<open>utils/autofill.js: setValue\<close>

text \<open>
  The resume file the popup passes on (\<open>name\<close>, \<open>type\<close>, base64 \<open>data\<close>). \<open>atob\<close> belongs
  to the browser and is a parameter: it gives the decoded bytes, or nothing when it
  throws.
\<close>

record resume_file =
  rf_name :: string
  rf_type :: string
  rf_data :: string

type_synonym atob_fn = "string \<Rightarrow> string option"

definition update_element :: "document \<Rightarrow> nat \<Rightarrow> (element \<Rightarrow> element) \<Rightarrow> document" where
  "update_element doc i f = (if i < length doc then doc[i := f (doc ! i)] else doc)"

definition dispatch :: "dom_event list \<Rightarrow> element \<Rightarrow> element" where
  "dispatch evs el = el\<lparr>el_events := el_events el @ evs\<rparr>"

subsection \<open>A file input\<close>

definition setValue_file :: "atob_fn \<Rightarrow> document \<Rightarrow> nat \<Rightarrow> resume_file option \<Rightarrow> bool \<times> document" where
  "setValue_file atob doc i resumeFile =
     (case resumeFile of
        None \<Rightarrow> (False, update_element doc i (dispatch [Click]))
      | Some rf \<Rightarrow>
          if rf_data rf \<noteq> []
          then (case atob (rf_data rf) of
                  Some bytes \<Rightarrow>
                    (True,
                     update_element doc i
                       (\<lambda>el. dispatch [ChangeEvent, InputEvent]
                          (el\<lparr>el_files := [\<lparr>file_name = rf_name rf,
                                              file_type = or_else (rf_type rf) ''application/pdf'',
                                              file_bytes = bytes\<rparr>]\<rparr>)))
                | None \<Rightarrow> (False, update_element doc i (dispatch [Click])))
          else (False, update_element doc i (dispatch [Click])))"

subsection \<open>A select\<close>

text \<open>The four tests on an option, in the order of the source.\<close>

definition strategy1 :: "string \<Rightarrow> select_option \<Rightarrow> bool" where
  "strategy1 valLower opn =
     (let optText = trim (toLowerCase (opt_text opn));
          optValue = trim (toLowerCase (opt_value opn))
      in optText = valLower \<or> optValue = valLower
         \<or> str_includes optText valLower \<or> str_includes valLower optText)"

definition strategy2 :: "jsnum \<Rightarrow> select_option \<Rightarrow> bool" where
  "strategy2 valNum opn =
     (let optText = toLowerCase (opt_text opn);
          nums = map parseInt (digit_runs optText)
      in if length nums = 2 then num_ge valNum (nums ! 0) \<and> num_le valNum (nums ! 1)
         else if length nums = 1 then num_ge valNum (nums ! 0 - 2) \<and> num_le valNum (nums ! 0 + 2)
         else number_pattern_test valNum optText)"

definition strategy3 :: "string list \<Rightarrow> select_option \<Rightarrow> bool" where
  "strategy3 valWords opn =
     (let optText = toLowerCase (opt_text opn)
      in list_all (\<lambda>w. str_includes optText w) valWords
         \<or> list_ex (\<lambda>optWord. optWord \<in> set valWords) (split_ws optText))"

definition strategy4 :: "string \<Rightarrow> select_option \<Rightarrow> bool" where
  "strategy4 valLower opn =
     (let optText = toLowerCase (opt_text opn)
      in str_includes optText valLower \<or> str_includes valLower optText)"

text \<open>
  The option the select branch settles on: the variable \<open>opt\<close> after each of the four
  steps, each later step running only while \<open>opt\<close> is still empty.
\<close>

definition choose_option :: "string \<Rightarrow> select_option list \<Rightarrow> select_option option" where
  "choose_option val opts =
     (let valLower = trim (toLowerCase val);
          valNum = parseFloat valLower;
          opt1 = find (strategy1 valLower) opts;
          opt2 = (if opt1 = None \<and> \<not> isNaN valNum \<and> num_positive valNum
                  then find (strategy2 valNum) opts else opt1);
          opt3 = (if opt2 = None \<and> length (split_ws valLower) > 1
                  then find (strategy3 (filter (\<lambda>w. length w > 2) (split_ws valLower))) opts
                  else opt2);
          opt4 = (if opt3 = None then find (strategy4 valLower) opts else opt3)
      in opt4)"

text \<open>
  The same choice as the specification words it: the candidates of the four
  strategies in their order (a strategy whose guard fails has none), and the first
  candidate there is.
\<close>

definition spec_option_candidates :: "string \<Rightarrow> select_option list \<Rightarrow> select_option option list" where
  "spec_option_candidates val opts =
     (let valLower = trim (toLowerCase val); valNum = parseFloat valLower
      in [ find (strategy1 valLower) opts,
           (if \<not> isNaN valNum \<and> num_positive valNum then find (strategy2 valNum) opts else None),
           (if length (split_ws valLower) > 1
            then find (strategy3 (filter (\<lambda>w. length w > 2) (split_ws valLower))) opts else None),
           find (strategy4 valLower) opts ])"

definition setValue_select :: "document \<Rightarrow> nat \<Rightarrow> string \<Rightarrow> bool \<times> document" where
  "setValue_select doc i val =
     (case choose_option val (el_options (doc ! i)) of
        Some opt \<Rightarrow>
          (True, update_element doc i (\<lambda>el. dispatch [ChangeEvent] (el\<lparr>el_value := opt_value opt\<rparr>)))
      | None \<Rightarrow> (False, doc))"

text \<open>The option a select shows for its value: the first option with that value.\<close>

definition selected_option :: "element \<Rightarrow> select_option option" where
  "selected_option el = find (\<lambda>opn. opt_value opn = el_value el) (el_options el)"

subsection \<open>Any other control, and the whole helper\<close>

definition setValue_text :: "document \<Rightarrow> nat \<Rightarrow> string \<Rightarrow> bool \<times> document" where
  "setValue_text doc i val =
     (True, update_element doc i
              (\<lambda>el. dispatch [InputEvent, ChangeEvent] ((dispatch [Focus] el)\<lparr>el_value := val\<rparr>)))"

definition setValue ::
    "atob_fn \<Rightarrow> document \<Rightarrow> nat option \<Rightarrow> string \<Rightarrow> resume_file option \<Rightarrow> bool \<times> document" where
  "setValue atob doc el val resumeFile =
     (case el of
        None \<Rightarrow> (False, doc)
      | Some i \<Rightarrow>
          if el_type (doc ! i) = ''file'' then setValue_file atob doc i resumeFile
          else if tag_is (doc ! i) ''select'' then setValue_select doc i val
          else setValue_text doc i val)"

section \<open>utils/autofill.js: findElementForField\<close>

text \<open>
  \<open>document.querySelector('[name="N"]')\<close>, under the same proviso on the pasted text.
  An element without a name reads as the empty name, and a selector for the empty name
  finds nothing.
\<close>

definition querySelector_name :: "document \<Rightarrow> string \<Rightarrow> nat option" where
  "querySelector_name doc n = (if n = [] then None else first_index (\<lambda>e. el_name e = n) doc)"

text \<open>The form controls and the labels of the page, in document order.\<close>

definition form_controls :: "document \<Rightarrow> nat list" where
  "form_controls doc = filter (\<lambda>j. is_form_control (doc ! j)) [0..<length doc]"

definition label_elements :: "document \<Rightarrow> nat list" where
  "label_elements doc = filter (\<lambda>j. tag_is (doc ! j) ''label'') [0..<length doc]"

text \<open>The loop over the labels: the control of the first label that has one.\<close>

fun control_of_labels :: "document \<Rightarrow> string \<Rightarrow> nat list \<Rightarrow> nat option" where
  "control_of_labels doc label [] = None"
| "control_of_labels doc label (lab # labs) =
     (if str_includes (toLowerCase (innerText (doc ! lab))) label
      then (case (case attr_for (doc ! lab) of
                    None \<Rightarrow> None
                  | Some forId \<Rightarrow> getElementById doc forId) of
              Some el \<Rightarrow> Some el
            | None \<Rightarrow>
                (case find (\<lambda>j. lab \<in> set (ancestors doc j)) (form_controls doc) of
                   Some inside \<Rightarrow> Some inside
                 | None \<Rightarrow> control_of_labels doc label labs))
      else control_of_labels doc label labs)"

definition token_score :: "string list \<Rightarrow> element \<Rightarrow> nat" where
  "token_score tokens i =
     length (filter (\<lambda>t. t \<noteq> [] \<and>
        str_includes
          (toLowerCase (el_id i @ '' '' @ el_name i @ '' '' @ el_placeholder i @ '' ''
                        @ opt_text_or_empty (attr_aria_label i))) t) tokens)"

text \<open>The ranking loop, with \<open>best\<close> and \<open>bestScore\<close>.\<close>

fun rank_inputs :: "document \<Rightarrow> string list \<Rightarrow> nat option \<Rightarrow> nat \<Rightarrow> nat list \<Rightarrow> nat option \<times> nat" where
  "rank_inputs doc tokens best bestScore [] = (best, bestScore)"
| "rank_inputs doc tokens best bestScore (i # rest) =
     (if token_score tokens (doc ! i) > bestScore
      then rank_inputs doc tokens (Some i) (token_score tokens (doc ! i)) rest
      else rank_inputs doc tokens best bestScore rest)"

definition findElementForField :: "document \<Rightarrow> field \<Rightarrow> nat option" where
  "findElementForField doc fieldObj =
     (let label = toLowerCase (label_text fieldObj);
          byId = (case f_id fieldObj of None \<Rightarrow> None | Some i \<Rightarrow> getElementById doc i);
          byName = (case f_name fieldObj of
                      None \<Rightarrow> None
                    | Some n \<Rightarrow> if n \<noteq> [] then querySelector_name doc n else None);
          byPlaceholder = (case placeholder fieldObj of
                      None \<Rightarrow> None
                    | Some p \<Rightarrow>
                        if p \<noteq> []
                        then find (\<lambda>j. str_includes (toLowerCase (el_placeholder (doc ! j))) (toLowerCase p))
                               (form_controls doc)
                        else None)
      in case byId of
           Some el \<Rightarrow> Some el
         | None \<Rightarrow>
        (case byName of
           Some el \<Rightarrow> Some el
         | None \<Rightarrow>
        (case byPlaceholder of
           Some el \<Rightarrow> Some el
         | None \<Rightarrow>
        (case control_of_labels doc label (label_elements doc) of
           Some el \<Rightarrow> Some el
         | None \<Rightarrow>
        (case rank_inputs doc (take 4 (split_ws label)) None 0
                (filter (\<lambda>j. \<not> offsetParent_null (doc ! j)) (form_controls doc)) of
           (best, bestScore) \<Rightarrow> if best \<noteq> None \<and> bestScore > 0 then best else None)))))"

section \<open>utils/autofill.js: autofillFields\<close>

record parsed_resume =
  raw_text :: string

definition field_label :: "field \<Rightarrow> string" where
  "field_label f =
     or_else (label_text f)
       (or_else (opt_text_or_empty (aria_label f))
          (or_else (opt_text_or_empty (placeholder f))
             (or_else (opt_text_or_empty (f_name f))
                (or_else (opt_text_or_empty (f_id f)) ''(no-label)''))))"

definition candidate_answer :: "(string \<rightharpoonup> string) \<Rightarrow> string \<Rightarrow> string" where
  "candidate_answer answersMap lbl =
     (case answersMap lbl of
        Some a \<Rightarrow> a
      | None \<Rightarrow> (case answersMap (trim lbl) of Some a \<Rightarrow> a | None \<Rightarrow> []))"

text \<open>One turn of the main loop, on the count of filled fields and the page.\<close>

definition fill_field ::
    "atob_fn \<Rightarrow> (string \<rightharpoonup> string) \<Rightarrow> resume_file option \<Rightarrow> field \<Rightarrow> nat \<times> document \<Rightarrow> nat \<times> document" where
  "fill_field atob answersMap resumeFile f st =
     (case st of (filledCount, doc) \<Rightarrow>
       (case findElementForField doc f of
          None \<Rightarrow> (filledCount, doc)
        | Some el \<Rightarrow>
            if el_type (doc ! el) = ''file''
            then (case setValue atob doc (Some el) [] resumeFile of
                    (ok, doc') \<Rightarrow> (if ok then filledCount + 1 else filledCount, doc'))
            else if candidate_answer answersMap (field_label f) = [] then (filledCount, doc)
            else if trim (candidate_answer answersMap (field_label f)) = [] then (filledCount, doc)
            else (case setValue atob doc (Some el) (trim (candidate_answer answersMap (field_label f)))
                         resumeFile of
                    (ok, doc') \<Rightarrow> (if ok then filledCount + 1 else filledCount, doc'))))"

text \<open>
  The element the fallback pass looks up; a missing id or name is pasted in as the
  text \<open>null\<close>.
\<close>

definition null_text :: "string option \<Rightarrow> string" where
  "null_text v = (case v of None \<Rightarrow> ''null'' | Some s \<Rightarrow> s)"

definition fallback_element :: "document \<Rightarrow> field \<Rightarrow> nat option" where
  "fallback_element doc f =
     (case getElementById doc (null_text (f_id f)) of
        Some el \<Rightarrow> Some el
      | None \<Rightarrow> querySelector_name doc (null_text (f_name f)))"

text \<open>
  One fill of the fallback pass. \<open>setValue\<close> is called without \<open>await\<close>: the call does
  its work, and what the \<open>if\<close> tests is the promise it returns, which is always
  truthy. So the count goes up whenever the element exists.
\<close>

definition fallback_fill :: "atob_fn \<Rightarrow> string \<Rightarrow> field \<Rightarrow> nat \<times> document \<Rightarrow> nat \<times> document" where
  "fallback_fill atob v f st =
     (case st of (filledCount, doc) \<Rightarrow>
       (case fallback_element doc f of
          None \<Rightarrow> (filledCount, doc)
        | Some el \<Rightarrow> (filledCount + 1, snd (setValue atob doc (Some el) v None))))"

definition fallback_field ::
    "atob_fn \<Rightarrow> string option \<Rightarrow> string option \<Rightarrow> field \<Rightarrow> nat \<times> document \<Rightarrow> nat \<times> document" where
  "fallback_field atob email phone f st =
     (let key = toLowerCase (label_text f);
          st1 = (case email of
                   Some v \<Rightarrow> if str_includes key ''email'' then fallback_fill atob v f st else st
                 | None \<Rightarrow> st)
      in (case phone of
            Some v \<Rightarrow> if str_includes key ''phone'' then fallback_fill atob v f st1 else st1
          | None \<Rightarrow> st1))"

definition fallback_pass ::
    "atob_fn \<Rightarrow> parsed_resume option \<Rightarrow> field list \<Rightarrow> nat \<times> document \<Rightarrow> nat \<times> document" where
  "fallback_pass atob parsed flds st =
     (case parsed of
        None \<Rightarrow> st
      | Some pr \<Rightarrow>
          if fst st = 0
          then fold (fallback_field atob
                       (if raw_text pr \<noteq> [] then rx_search email_rx None (raw_text pr) else None)
                       (if raw_text pr \<noteq> [] then rx_search phone_rx None (raw_text pr) else None))
                 flds st
          else st)"

text \<open>
  The body of the outer \<open>try\<close>. Reading \<open>answersMap[lbl]\<close> throws a \<open>TypeError\<close> when no
  answers object was passed, at the first field, before anything is written.
\<close>

definition autofillFields_body ::
    "atob_fn \<Rightarrow> document \<Rightarrow> field list \<Rightarrow> (string \<rightharpoonup> string) option \<Rightarrow> parsed_resume option
       \<Rightarrow> resume_file option \<Rightarrow> js_error + (bool \<times> document)" where
  "autofillFields_body atob doc flds answersMap parsed resumeFile =
     (case answersMap of
        None \<Rightarrow>
          if flds \<noteq> [] then Inl TypeError
          else (case fallback_pass atob parsed flds (0, doc) of
                  (filledCount, doc') \<Rightarrow> Inr (filledCount > 0, doc'))
      | Some answers \<Rightarrow>
          (case fallback_pass atob parsed flds
                  (fold (fill_field atob answers resumeFile) flds (0, doc)) of
             (filledCount, doc') \<Rightarrow> Inr (filledCount > 0, doc')))"

definition autofillFields ::
    "atob_fn \<Rightarrow> document \<Rightarrow> field list \<Rightarrow> (string \<rightharpoonup> string) option \<Rightarrow> parsed_resume option
       \<Rightarrow> resume_file option \<Rightarrow> bool \<times> document" where
  "autofillFields atob doc flds answersMap parsed resumeFile =
     (case autofillFields_body atob doc flds answersMap parsed resumeFile of
        Inl e \<Rightarrow> (False, doc)
      | Inr r \<Rightarrow> r)"

section \<open>Pages and inputs of the examples\<close>

definition years_options :: "select_option list" where
  "years_options =
     [\<lparr>opt_text = ''0-2 years'', opt_value = ''0-2 years''\<rparr>,
      \<lparr>opt_text = ''3-5 years'', opt_value = ''3-5 years''\<rparr>,
      \<lparr>opt_text = ''5-7 years'', opt_value = ''5-7 years''\<rparr>,
      \<lparr>opt_text = ''7+ years'', opt_value = ''7+ years''\<rparr>]"

definition page_years_select :: document where
  "page_years_select =
     [plain_element ''FORM'' None,
      (plain_element ''SELECT'' (Some 0))
        \<lparr>el_type := ''select-one'', el_id := ''yoe'', el_options := years_options\<rparr>]"

definition page_file_input :: document where
  "page_file_input =
     [plain_element ''FORM'' None,
      (plain_element ''INPUT'' (Some 0))\<lparr>el_type := ''file'', el_id := ''resume''\<rparr>]"

definition resume_field :: field where
  "resume_field =
     \<lparr>tag = ''input'', f_name = None, f_id = Some ''resume'', placeholder = None,
      f_type = Some ''file'', aria_label = None, label_text = ''Resume''\<rparr>"

definition sample_resume_file :: resume_file where
  "sample_resume_file = \<lparr>rf_name = ''cv.pdf'', rf_type = [], rf_data = ''JVBERg==''\<rparr>"

text \<open>A stand-in for \<open>atob\<close> that decodes the sample and throws on everything else.\<close>

definition sample_atob :: atob_fn where
  "sample_atob s = (if s = ''JVBERg=='' then Some ''%PDF'' else None)"

definition page_email_optin :: document where
  "page_email_optin =
     [plain_element ''FORM'' None,
      (plain_element ''LABEL'' (Some 0))
        \<lparr>attr_for := Some ''email_optin'', innerText := ''Email updates''\<rparr>,
      (plain_element ''SELECT'' (Some 0))
        \<lparr>el_type := ''select-one'', el_id := ''email_optin'',
         el_options := [\<lparr>opt_text = ''Yes'', opt_value = ''yes''\<rparr>,
                        \<lparr>opt_text = ''Never'', opt_value = ''never''\<rparr>],
         el_value := ''yes''\<rparr>]"

definition email_optin_field :: field where
  "email_optin_field =
     \<lparr>tag = ''select'', f_name = None, f_id = Some ''email_optin'', placeholder = None,
      f_type = Some ''select-one'', aria_label = None, label_text = ''Email updates''\<rparr>"

section \<open>Properties\<close>

lemma startsWith_append: "startsWith (p @ s) p"
  by (induction p) auto

lemma startsWith_iff: "startsWith s p \<longleftrightarrow> (\<exists>t. s = p @ t)"
proof (induction s p rule: startsWith.induct)
  case (1 s) show ?case by simp
next
  case (2 p ps) show ?case by simp
next
  case (3 c cs p ps) then show ?case by auto
qed

lemma endsWith_iff: "endsWith s p \<longleftrightarrow> (\<exists>t. s = t @ p)"
proof -
  have "endsWith s p \<longleftrightarrow> (\<exists>t. rev s = rev p @ t)"
    by (simp add: endsWith_def startsWith_iff)
  also have "\<dots> \<longleftrightarrow> (\<exists>t. s = t @ p)"
  proof
    assume "\<exists>t. rev s = rev p @ t"
    then obtain t where "rev s = rev p @ t" ..
    then have "s = rev t @ p" by (metis rev_append rev_rev_ident)
    then show "\<exists>t. s = t @ p" ..
  next
    assume "\<exists>t. s = t @ p"
    then obtain t where "s = t @ p" ..
    then have "rev s = rev p @ rev t" by simp
    then show "\<exists>t. rev s = rev p @ t" ..
  qed
  finally show ?thesis .
qed

lemma endsWith_longer: "endsWith s (q @ p) \<Longrightarrow> endsWith s p"
  by (auto simp: endsWith_iff)

subsection \<open>Runs of the background context\<close>

lemma bg_run_append: "bg_run (xs @ ys) s = bg_run ys (bg_run xs s)"
  by (induction xs arbitrary: s) auto

lemma wf_trace_append:
  "wf_trace st rt (xs @ ys) \<longleftrightarrow> wf_trace st rt xs \<and> wf_trace (started_by st xs) (returned_by rt xs) ys"
proof (induction xs arbitrary: st rt)
  case Nil
  show ?case by simp
next
  case (Cons e es)
  then show ?case by (cases e) auto
qed

lemma bg_inv_init: "bg_inv [] [] bg_init"
  by (simp add: bg_inv_def bg_init_def)

lemma step_ScoreRequest:
  "requests (fst (bg_step (ScoreRequest i payload now) s))
     = (requests s)(i \<mapsto> ProcessingState now (case jd_url payload of None \<Rightarrow> [] | Some u \<Rightarrow> u))"
  "pendingRequests (fst (bg_step (ScoreRequest i payload now) s)) = (pendingRequests s)(i \<mapsto> now)"
  "statusChecks (fst (bg_step (ScoreRequest i payload now) s)) = statusChecks s"
  by (simp_all add: on_BG_RESUME_SCORE_def handleResumeScoreRequest_begin_def saveRequestState_def
      startKeepAlive_def)

lemma requests_step_FetchReturned:
  "\<exists>r. status_of r \<noteq> Processing
     \<and> requests (fst (bg_step (FetchReturned i st outcome now) s)) = (requests s)(i \<mapsto> r)"
proof (cases outcome)
  case (Returned res)
  show ?thesis
  proof (cases "res_ok res")
    case True
    with Returned have "requests (fst (bg_step (FetchReturned i st outcome now) s))
        = (requests s)(i \<mapsto> CompleteState (res_data res) now (round_seconds (now - st)))"
      by (simp add: handleResumeScoreRequest_settle_def handleResumeScoreRequest_finally_def
          saveRequestState_def stopKeepAlive_def)
    moreover have "status_of (CompleteState (res_data res) now (round_seconds (now - st))) \<noteq> Processing"
      by simp
    ultimately show ?thesis by blast
  next
    case False
    with Returned have "requests (fst (bg_step (FetchReturned i st outcome now) s))
        = (requests s)(i \<mapsto> ErrorState (js_or (res_data res) (js_or (res_error res) (Str ''Unknown error'')))
                   now (round_seconds (now - st)))"
      by (simp add: handleResumeScoreRequest_settle_def handleResumeScoreRequest_finally_def
          saveRequestState_def stopKeepAlive_def)
    moreover have "status_of (ErrorState (js_or (res_data res) (js_or (res_error res) (Str ''Unknown error'')))
                   now (round_seconds (now - st))) \<noteq> Processing"
      by simp
    ultimately show ?thesis by blast
  qed
next
  case (Threw name msg)
  then have "requests (fst (bg_step (FetchReturned i st outcome now) s))
      = (requests s)(i \<mapsto> ErrorState (Str (err_text name msg)) now (round_seconds (now - st)))"
    by (simp add: handleResumeScoreRequest_settle_def handleResumeScoreRequest_finally_def
        saveRequestState_def stopKeepAlive_def)
  moreover have "status_of (ErrorState (Str (err_text name msg)) now (round_seconds (now - st))) \<noteq> Processing"
    by simp
  ultimately show ?thesis by blast
qed

lemma step_FetchReturned:
  "pendingRequests (fst (bg_step (FetchReturned i st outcome now) s)) = (pendingRequests s)(i := None)"
  "statusChecks (fst (bg_step (FetchReturned i st outcome now) s)) = statusChecks s"
  by (simp_all add: handleResumeScoreRequest_settle_def handleResumeScoreRequest_finally_def
      saveRequestState_def stopKeepAlive_def split: try_outcome.split)

lemma step_CheckRead:
  "requests (fst (bg_step (CheckRead c i) s)) = requests s"
  "pendingRequests (fst (bg_step (CheckRead c i) s)) = pendingRequests s"
  "statusChecks (fst (bg_step (CheckRead c i) s)) = (statusChecks s)(c \<mapsto> (i, requests s i))"
  by (simp_all add: on_CHECK_REQUEST_STATUS_read_def getRequestState_def)

lemma requests_step_CheckResume:
  "requests (fst (bg_step (CheckResume c now) s)) = requests s
   \<or> (\<exists>i r. statusChecks s c = Some (i, Some r) \<and> status_of r \<noteq> Processing
            \<and> requests (fst (bg_step (CheckResume c now) s)) = (requests s)(i := None))"
  by (auto simp: on_CHECK_REQUEST_STATUS_resume_def clearRequestState_def
      split: option.split request_state.split)

lemma step_CheckResume:
  "pendingRequests (fst (bg_step (CheckResume c now) s)) = pendingRequests s"
  "statusChecks (fst (bg_step (CheckResume c now) s)) = (statusChecks s)(c := None)"
  by (auto simp: on_CHECK_REQUEST_STATUS_resume_def clearRequestState_def
      split: option.split request_state.split)

lemma step_CancelRequest:
  "requests (fst (bg_step (CancelRequest i) s)) = (requests s)(i := None)"
  "pendingRequests (fst (bg_step (CancelRequest i) s)) = (pendingRequests s)(i := None)"
  "statusChecks (fst (bg_step (CancelRequest i) s)) = statusChecks s"
  by (simp_all add: on_CANCEL_REQUEST_def clearRequestState_def stopKeepAlive_def)

lemma bg_inv_step:
  assumes inv: "bg_inv st rt s" and wf: "wf_trace st rt [e]"
  shows "bg_inv (started_by st [e]) (returned_by rt [e]) (fst (bg_step e s))"
proof (cases e)
  case (ScoreRequest i payload now)
  with wf have fresh: "i \<notin> set st" by simp
  with inv have "i \<notin> set rt" by (auto simp: bg_inv_def)
  with inv fresh show ?thesis
    unfolding ScoreRequest bg_inv_def step_ScoreRequest
    by auto
next
  case (CheckRead c i)
  from inv show ?thesis
    unfolding CheckRead bg_inv_def step_CheckRead
    by (auto split: if_splits)
next
  case (CheckResume c now)
  from requests_step_CheckResume [of c now s] inv show ?thesis
    unfolding CheckResume bg_inv_def step_CheckResume
    by (auto split: if_splits)
next
  case (CancelRequest i)
  from inv show ?thesis
    unfolding CancelRequest bg_inv_def step_CancelRequest
    by (auto split: if_splits)
next
  case (FetchReturned i t0 res now)
  with wf have i: "i \<in> set st" "i \<notin> set rt" by simp_all
  obtain r where r: "status_of r \<noteq> Processing"
     "requests (fst (bg_step (FetchReturned i t0 res now) s)) = (requests s)(i \<mapsto> r)"
    using requests_step_FetchReturned by blast
  from inv i r show ?thesis
    unfolding FetchReturned bg_inv_def step_FetchReturned
    by (auto split: if_splits)
qed

lemma bg_inv_run:
  "bg_inv st rt s \<Longrightarrow> wf_trace st rt es \<Longrightarrow> bg_inv (started_by st es) (returned_by rt es) (bg_run es s)"
proof (induction es arbitrary: st rt s)
  case Nil
  then show ?case by simp
next
  case (Cons e es)
  from Cons.prems(2) have wfe: "wf_trace st rt [e]" and
      wfes: "wf_trace (started_by st [e]) (returned_by rt [e]) es"
    using wf_trace_append [of st rt "[e]" es] by simp_all
  from Cons.prems(1) wfe have "bg_inv (started_by st [e]) (returned_by rt [e]) (fst (bg_step e s))"
    by (rule bg_inv_step)
  from Cons.IH [OF this wfes] show ?case
    by (cases e) simp_all
qed

text \<open>In a well-formed run a stored record only moves from Processing to Complete or Error.\<close>

lemma step_monotone:
  assumes inv: "bg_inv st rt s" and wf: "wf_trace st rt [e]"
    and before: "requests s i = Some r" and after: "requests (fst (bg_step e s)) i = Some r'"
    and changed: "status_of r \<noteq> status_of r'"
  shows "status_of r = Processing \<and> status_of r' \<noteq> Processing"
proof (cases e)
  case (ScoreRequest j payload now)
  with wf have "j \<notin> set st" by simp
  with inv have "requests s j = None" by (simp add: bg_inv_def)
  with before after changed show ?thesis
    unfolding ScoreRequest step_ScoreRequest by (auto split: if_splits)
next
  case (CheckRead c j)
  from before after changed show ?thesis
    unfolding CheckRead step_CheckRead by simp
next
  case (CheckResume c now)
  from requests_step_CheckResume [of c now s] before after changed show ?thesis
    unfolding CheckResume by (auto split: if_splits)
next
  case (CancelRequest j)
  from before after changed show ?thesis
    unfolding CancelRequest step_CancelRequest by (auto split: if_splits)
next
  case (FetchReturned j t0 res now)
  with wf have j: "j \<notin> set rt" by simp
  obtain q where q: "status_of q \<noteq> Processing"
     "requests (fst (bg_step (FetchReturned j t0 res now) s)) = (requests s)(j \<mapsto> q)"
    using requests_step_FetchReturned by blast
  show ?thesis
  proof (cases "i = j")
    case True
    with inv j before have "status_of r = Processing" by (auto simp: bg_inv_def)
    moreover from changed this have "status_of r' \<noteq> Processing" by simp
    ultimately show ?thesis by simp
  next
    case False
    with before after changed q show ?thesis unfolding FetchReturned by simp
  qed
qed

lemma run_monotone:
  assumes wf: "wf_trace [] [] (pre @ e # post)"
    and before: "requests (bg_run pre bg_init) i = Some r"
    and after: "requests (fst (bg_step e (bg_run pre bg_init))) i = Some r'"
    and changed: "status_of r \<noteq> status_of r'"
  shows "status_of r = Processing \<and> status_of r' \<noteq> Processing"
proof -
  from wf have wfpre: "wf_trace [] [] pre"
    and wfrest: "wf_trace (started_by [] pre) (returned_by [] pre) (e # post)"
    by (simp_all add: wf_trace_append)
  from wfrest have wfe: "wf_trace (started_by [] pre) (returned_by [] pre) [e]"
    using wf_trace_append [of "started_by [] pre" "returned_by [] pre" "[e]" post] by simp
  have inv: "bg_inv (started_by [] pre) (returned_by [] pre) (bg_run pre bg_init)"
    using bg_inv_init wfpre by (rule bg_inv_run)
  from step_monotone [OF inv wfe before after changed] show ?thesis .
qed

lemma gone_stays_gone:
  "requests s i = None \<Longrightarrow> pendingRequests s i = None \<Longrightarrow> i \<in> set st \<Longrightarrow> i \<in> set rt
   \<Longrightarrow> wf_trace st rt es
   \<Longrightarrow> requests (bg_run es s) i = None \<and> pendingRequests (bg_run es s) i = None"
proof (induction es arbitrary: st rt s)
  case Nil
  then show ?case by simp
next
  case (Cons e es)
  show ?case
  proof (cases e)
    case (ScoreRequest j payload now)
    with Cons.prems have ne: "j \<noteq> i" and wf: "wf_trace (j # st) rt es" by auto
    have "requests (fst (bg_step e s)) i = None" "pendingRequests (fst (bg_step e s)) i = None"
      using Cons.prems(1,2) ne
      unfolding ScoreRequest step_ScoreRequest by simp_all
    from Cons.IH [OF this _ _ wf] Cons.prems(3,4) show ?thesis by simp
  next
    case (CheckRead c j)
    with Cons.prems have wf: "wf_trace st rt es" by simp
    have "requests (fst (bg_step e s)) i = None" "pendingRequests (fst (bg_step e s)) i = None"
      using Cons.prems(1,2) unfolding CheckRead step_CheckRead by simp_all
    from Cons.IH [OF this Cons.prems(3,4) wf] show ?thesis by simp
  next
    case (CheckResume c now)
    with Cons.prems have wf: "wf_trace st rt es" by simp
    have "requests (fst (bg_step e s)) i = None" "pendingRequests (fst (bg_step e s)) i = None"
      using Cons.prems(1,2) requests_step_CheckResume [of c now s]
      unfolding CheckResume step_CheckResume by auto
    from Cons.IH [OF this Cons.prems(3,4) wf] show ?thesis by simp
  next
    case (CancelRequest j)
    with Cons.prems have wf: "wf_trace st rt es" by simp
    have "requests (fst (bg_step e s)) i = None" "pendingRequests (fst (bg_step e s)) i = None"
      using Cons.prems(1,2)
      unfolding CancelRequest step_CancelRequest by simp_all
    from Cons.IH [OF this Cons.prems(3,4) wf] show ?thesis by simp
  next
    case (FetchReturned j t0 res now)
    with Cons.prems have ne: "j \<noteq> i" and wf: "wf_trace st (j # rt) es" by auto
    obtain q where q:
       "requests (fst (bg_step (FetchReturned j t0 res now) s)) = (requests s)(j \<mapsto> q)"
      using requests_step_FetchReturned by blast
    have "requests (fst (bg_step e s)) i = None" "pendingRequests (fst (bg_step e s)) i = None"
      using Cons.prems(1,2) ne q
      unfolding FetchReturned step_FetchReturned by simp_all
    from Cons.IH [OF this _ _ wf] Cons.prems(3,4) show ?thesis by simp
  qed
qed

lemma resume_consumes:
  assumes "statusChecks s c = Some (i, Some r)" and "status_of r \<noteq> Processing"
  shows "(\<forall>dat t el. r = CompleteState dat t el \<longrightarrow>
             bg_reply (CheckResume c now) s = StatusReply (ReplyComplete dat el))
       \<and> (\<forall>err t el. r = ErrorState err t el \<longrightarrow>
             bg_reply (CheckResume c now) s = StatusReply (ReplyError err el))
       \<and> requests (fst (bg_step (CheckResume c now) s)) i = None"
  using assms
  by (cases r)
     (simp_all add: bg_reply_def on_CHECK_REQUEST_STATUS_resume_def clearRequestState_def)

text \<open>
  A status check that no other handler interrupts, on an id that has neither a record
  nor a pending entry, is answered not_found.
\<close>

lemma check_not_found:
  assumes "requests s i = None" and "pendingRequests s i = None"
  shows "bg_reply (CheckResume c now) (fst (bg_step (CheckRead c i) s)) = StatusReply ReplyNotFound"
  using assms
  by (simp add: bg_reply_def on_CHECK_REQUEST_STATUS_resume_def on_CHECK_REQUEST_STATUS_read_def
      getRequestState_def)

text \<open>
  In a well-formed run, once a status check has gone on with a terminal record, the
  record and the pending entry of that id are gone for good, so every status check
  that starts later and is not interrupted is answered not_found.
\<close>

lemma consumed_once_when_checks_do_not_overlap:
  assumes wf: "wf_trace [] [] (pre @ CheckResume c now # mid)"
    and readc: "statusChecks (bg_run pre bg_init) c = Some (i, Some r)"
    and fin: "status_of r \<noteq> Processing"
  shows "bg_reply (CheckResume c' now')
           (fst (bg_step (CheckRead c' i) (bg_run (pre @ CheckResume c now # mid) bg_init)))
         = StatusReply ReplyNotFound"
proof -
  define s where "s = bg_run pre bg_init"
  define st where "st = started_by [] pre"
  define rt where "rt = returned_by [] pre"
  from wf have wfpre: "wf_trace [] [] pre" and wfrest: "wf_trace st rt (CheckResume c now # mid)"
    by (simp_all add: wf_trace_append st_def rt_def)
  then have wfmid: "wf_trace st rt mid" by simp
  have inv: "bg_inv st rt s"
    unfolding s_def st_def rt_def using bg_inv_init wfpre by (rule bg_inv_run)
  from inv readc fin have irt: "i \<in> set rt" unfolding s_def bg_inv_def by blast
  with inv have ist: "i \<in> set st" and pend: "pendingRequests s i = None"
    by (auto simp: bg_inv_def)
  from readc have readc': "statusChecks s c = Some (i, Some r)" by (simp add: s_def)
  from resume_consumes [OF readc' fin, of now]
  have g1: "requests (fst (bg_step (CheckResume c now) s)) i = None" by blast
  have g2: "pendingRequests (fst (bg_step (CheckResume c now) s)) i = None"
    unfolding step_CheckResume using pend .
  note gone = g1 g2
  from gone_stays_gone [OF gone ist irt wfmid]
  have "requests (bg_run mid (fst (bg_step (CheckResume c now) s))) i = None"
       "pendingRequests (bg_run mid (fst (bg_step (CheckResume c now) s))) i = None" by simp_all
  then have "bg_reply (CheckResume c' now')
      (fst (bg_step (CheckRead c' i) (bg_run mid (fst (bg_step (CheckResume c now) s)))))
      = StatusReply ReplyNotFound" by (rule check_not_found)
  then show ?thesis by (simp add: bg_run_append s_def)
qed

subsection \<open>Timeouts\<close>

lemma popup_timeout_same: "POPUP_REQUEST_TIMEOUT = REQUEST_TIMEOUT"
  by (simp add: POPUP_REQUEST_TIMEOUT_def REQUEST_TIMEOUT_def)

lemma timer_race_aborts:
  "\<not> settles_within timeout net \<Longrightarrow> timer_race timeout startTime net lag = (Aborted, startTime + timeout + lag)"
  by (cases net) (auto simp: timer_race_def)

lemma settle_failed:
  "msg \<noteq> [] \<Longrightarrow> requests (handleResumeScoreRequest_settle i st (Returned (FetchFailed msg)) now s) i
     = Some (ErrorState (Str msg) now (round_seconds (now - st)))"
  by (simp add: handleResumeScoreRequest_settle_def handleResumeScoreRequest_finally_def
      stopKeepAlive_def saveRequestState_def js_or_def)

text \<open>
  When \<open>fetch()\<close> itself does not settle within the timeout, the timer aborts it and
  the orchestrator stores an Error record with the timeout text.
\<close>

lemma unsettled_fetch_times_out:
  assumes "\<not> settles_within REQUEST_TIMEOUT net"
  shows "map_option (\<lambda>s'. requests s' requestId) (score_fetch_returns requestId startTime net lag s)
           = Some (Some (ErrorState
                (Str (''Request timed out after '' @ show_int (round_seconds (REQUEST_TIMEOUT + lag)) @ '' seconds''))
                (startTime + REQUEST_TIMEOUT + lag) (round_seconds (REQUEST_TIMEOUT + lag))))"
proof -
  have race: "timer_race REQUEST_TIMEOUT startTime net lag = (Aborted, startTime + REQUEST_TIMEOUT + lag)"
    using assms by (rule timer_race_aborts)
  show ?thesis
    by (simp add: score_fetch_returns_def fetchWithTimeout_def race fetch_catch_def settle_failed)
qed

text \<open>
  A poll of the popup that finds the elapsed time at or past the timeout stops polling
  and shows the timeout message without sending a message.
\<close>

lemma popup_times_out:
  assumes "currentRequestId p = Some requestId" and "pollingStartTime p = Some t0"
    and "now - t0 \<ge> POPUP_REQUEST_TIMEOUT"
  shows "checkRequestStatus_begin now p = PollDone ((stopPolling p)\<lparr>status_view := ViewTimeout\<rparr>)"
  using assms by (simp add: checkRequestStatus_begin_def Let_def)

subsection \<open>The label resolver\<close>





subsection \<open>Removing duplicates\<close>

lemma dedupe_kept: "dedupe seen out fs = out @ kept seen fs"
  by (induction fs arbitrary: seen out) auto

lemma kept_keys: "set (map field_key (kept seen fs)) = set (map field_key fs) - set seen"
  by (induction fs arbitrary: seen) auto

lemma kept_distinct: "distinct (map field_key (kept seen fs))"
proof (induction fs arbitrary: seen)
  case Nil
  show ?case by simp
next
  case (Cons f fs)
  have "field_key f \<notin> set (map field_key (kept (field_key f # seen) fs))"
    unfolding kept_keys by simp
  with Cons show ?case by simp
qed

lemma kept_subseq: "subseq (kept seen fs) fs"
  by (induction fs arbitrary: seen) auto

lemma kept_first:
  "f \<in> set (kept seen fs) \<Longrightarrow> find (\<lambda>g. field_key g = field_key f) fs = Some f"
proof (induction fs arbitrary: seen)
  case Nil
  then show ?case by simp
next
  case (Cons x xs)
  show ?case
  proof (cases "field_key x \<in> set seen")
    case True
    with Cons.prems have f: "f \<in> set (kept seen xs)" by simp
    then have "field_key f \<in> set (map field_key (kept seen xs))" by simp
    then have "field_key f \<notin> set seen" unfolding kept_keys by simp
    with True have "field_key x \<noteq> field_key f" by auto
    with Cons.IH [OF f] show ?thesis by simp
  next
    case False
    with Cons.prems have "f = x \<or> f \<in> set (kept (field_key x # seen) xs)" by simp
    then show ?thesis
    proof
      assume "f = x"
      then show ?thesis by simp
    next
      assume f: "f \<in> set (kept (field_key x # seen) xs)"
      then have "field_key f \<in> set (map field_key (kept (field_key x # seen) xs))" by simp
      then have "field_key x \<noteq> field_key f" unfolding kept_keys by auto
      with Cons.IH [OF f] show ?thesis by simp
    qed
  qed
qed

lemma first_is_kept:
  "find (\<lambda>g. field_key g = k) fs = Some h \<Longrightarrow> k \<notin> set seen \<Longrightarrow> h \<in> set (kept seen fs)"
proof (induction fs arbitrary: seen)
  case Nil
  then show ?case by simp
next
  case (Cons x xs)
  show ?case
  proof (cases "field_key x = k")
    case True
    with Cons.prems show ?thesis by simp
  next
    case False
    with Cons.prems have "find (\<lambda>g. field_key g = k) xs = Some h" by simp
    from Cons.IH [OF this] Cons.prems(2) False
    have "h \<in> set (kept seen xs)" "h \<in> set (kept (field_key x # seen) xs)" by auto
    then show ?thesis by simp
  qed
qed

lemma key_of_identity:
  "field_identity f = field_identity g \<Longrightarrow> field_key f = field_key g"
  by (simp add: field_identity_def field_key_def)

lemma distinct_identities:
  assumes "distinct (map field_key fs)"
  shows "distinct (map field_identity fs)"
proof -
  have "inj_on field_identity (set fs)"
  proof (rule inj_onI)
    fix f g assume "f \<in> set fs" "g \<in> set fs" "field_identity f = field_identity g"
    with assms show "f = g"
      by (meson distinct_map inj_onD key_of_identity)
  qed
  moreover from assms have "distinct fs" by (simp add: distinct_map)
  ultimately show ?thesis by (simp add: distinct_map)
qed

lemma find_in_set: "x \<in> set xs \<Longrightarrow> P x \<Longrightarrow> \<exists>y. find P xs = Some y"
  by (induction xs) auto

text \<open>
  What the loop does guarantee: the list keeps the document order, no two descriptors
  of it share the key text (hence none share the tuple), every kept descriptor is the
  first one seen with its key, every key seen is represented, and the first
  descriptor seen with a tuple is kept whenever no descriptor with another tuple has
  the same key text.
\<close>

lemma extractFields_keeps_first_of_each_key:
  "subseq (extractFields doc) (visible_fields doc)
   \<and> distinct (map field_key (extractFields doc))
   \<and> distinct (map field_identity (extractFields doc))
   \<and> (\<forall>f \<in> set (extractFields doc).
         find (\<lambda>g. field_key g = field_key f) (visible_fields doc) = Some f)
   \<and> (\<forall>f \<in> set (visible_fields doc). \<exists>g \<in> set (extractFields doc). field_key g = field_key f)
   \<and> (\<forall>f \<in> set (visible_fields doc).
         (\<forall>g \<in> set (visible_fields doc).
             field_key g = field_key f \<longrightarrow> field_identity g = field_identity f)
         \<longrightarrow> (\<exists>h \<in> set (extractFields doc).
               find (\<lambda>g. field_identity g = field_identity f) (visible_fields doc) = Some h))"
proof -
  let ?fs = "visible_fields doc"
  have out: "extractFields doc = kept [] ?fs"
    by (simp add: extractFields_def dedupe_kept)
  have order: "subseq (extractFields doc) ?fs" unfolding out by (rule kept_subseq)
  have keys: "distinct (map field_key (extractFields doc))" unfolding out by (rule kept_distinct)
  then have ids: "distinct (map field_identity (extractFields doc))" by (rule distinct_identities)
  have firsts: "\<forall>f \<in> set (extractFields doc). find (\<lambda>g. field_key g = field_key f) ?fs = Some f"
    unfolding out using kept_first by blast
  have all_keys: "\<forall>f \<in> set ?fs. \<exists>g \<in> set (extractFields doc). field_key g = field_key f"
  proof
    fix f assume "f \<in> set ?fs"
    then have "field_key f \<in> set (map field_key (kept [] ?fs))" unfolding kept_keys by simp
    then show "\<exists>g \<in> set (extractFields doc). field_key g = field_key f" unfolding out by auto
  qed
  have tuples: "\<forall>f \<in> set ?fs.
         (\<forall>g \<in> set ?fs. field_key g = field_key f \<longrightarrow> field_identity g = field_identity f)
         \<longrightarrow> (\<exists>h \<in> set (extractFields doc).
               find (\<lambda>g. field_identity g = field_identity f) ?fs = Some h)"
  proof (intro ballI impI)
    fix f assume f: "f \<in> set ?fs"
      and same: "\<forall>g \<in> set ?fs. field_key g = field_key f \<longrightarrow> field_identity g = field_identity f"
    from f obtain h where h: "find (\<lambda>g. field_key g = field_key f) ?fs = Some h"
      using find_in_set [of f ?fs "\<lambda>g. field_key g = field_key f"] by auto
    then have kept: "h \<in> set (extractFields doc)" unfolding out by (rule first_is_kept) simp
    have eq: "(field_identity g = field_identity f) = (field_key g = field_key f)"
      if "g \<in> set ?fs" for g
      using that same key_of_identity [of g f] by blast
    have "find (\<lambda>g. field_identity g = field_identity f) ?fs = find (\<lambda>g. field_key g = field_key f) ?fs"
      by (rule find_cong [OF refl]) (rule eq)
    with h kept show "\<exists>h \<in> set (extractFields doc).
               find (\<lambda>g. field_identity g = field_identity f) ?fs = Some h" by auto
  qed
  from order keys ids firsts all_keys tuples show ?thesis by blast
qed

subsection \<open>Filling\<close>

lemma first_some_candidates:
  "first_some [a, b, c, d] =
     (case a of Some x \<Rightarrow> Some x | None \<Rightarrow>
        (case b of Some x \<Rightarrow> Some x | None \<Rightarrow>
           (case c of Some x \<Rightarrow> Some x | None \<Rightarrow> d)))"
  by (simp split: option.splits)

lemma choose_option_first:
  "choose_option val opts = first_some (spec_option_candidates val opts)"
  unfolding choose_option_def spec_option_candidates_def Let_def first_some_candidates
  by (simp split: option.splits)

lemma first_some_at:
  "k < length xs \<Longrightarrow> xs ! k = Some x \<Longrightarrow> (\<forall>j<k. xs ! j = None) \<Longrightarrow> first_some xs = Some x"
proof (induction xs arbitrary: k)
  case Nil
  then show ?case by simp
next
  case (Cons a xs)
  show ?case
  proof (cases k)
    case 0
    with Cons.prems show ?thesis by simp
  next
    case (Suc m)
    with Cons.prems have a: "a = None" by auto
    from Suc Cons.prems have "m < length xs" "xs ! m = Some x" "\<forall>j<m. xs ! j = None" by auto
    from Cons.IH [OF this] a show ?thesis by simp
  qed
qed

lemma setValue_file_none:
  assumes "i < length doc" and "el_type (doc ! i) = ''file''"
  shows "setValue atob doc (Some i) val None
           = (False, doc[i := (doc ! i)\<lparr>el_events := el_events (doc ! i) @ [Click]\<rparr>])"
  using assms by (simp add: setValue_def setValue_file_def update_element_def dispatch_def)

lemma setValue_file_some:
  assumes "i < length doc" and "el_type (doc ! i) = ''file''"
    and "rf_data rf \<noteq> []" and "atob (rf_data rf) = Some bytes"
  shows "setValue atob doc (Some i) val (Some rf)
           = (True, doc[i := (doc ! i)
                \<lparr>el_files := [\<lparr>file_name = rf_name rf,
                               file_type = or_else (rf_type rf) ''application/pdf'',
                               file_bytes = bytes\<rparr>],
                 el_events := el_events (doc ! i) @ [ChangeEvent, InputEvent]\<rparr>])"
  using assms by (simp add: setValue_def setValue_file_def update_element_def dispatch_def)

section \<open>Main theorems\<close>

subsection \<open>isGreenhouse\<close>

text \<open>
  C10. isGreenhouse is total over arbitrary strings: whatever the URL constructor does
  with the input, the function returns a boolean and no exception leaves it. When the
  constructor throws (the string does not parse as a URL) the result is false, and
  otherwise the result is true exactly when the parsed host name ends with
  "greenhouse.io" (the two longer suffixes of the source add nothing).
\<close>

theorem isGreenhouse_total:
  "isGreenhouse new_URL s =
     (case new_URL s of Inl e \<Rightarrow> False | Inr u \<Rightarrow> endsWith (hostname u) ''greenhouse.io'')"
proof (cases "new_URL s")
  case (Inl e)
  then show ?thesis by (simp add: isGreenhouse_def isGreenhouse_body_def)
next
  case (Inr u)
  have a: "endsWith (hostname u) ''boards.greenhouse.io'' \<Longrightarrow> endsWith (hostname u) ''greenhouse.io''"
    using endsWith_longer [of "hostname u" "''boards.''" "''greenhouse.io''"] by simp
  have b: "endsWith (hostname u) ''job-boards.greenhouse.io'' \<Longrightarrow> endsWith (hostname u) ''greenhouse.io''"
    using endsWith_longer [of "hostname u" "''job-boards.''" "''greenhouse.io''"] by simp
  from Inr a b show ?thesis
    by (auto simp: isGreenhouse_def isGreenhouse_body_def)
qed

theorem isGreenhouse_total_witness:
  "isGreenhouse (\<lambda>s. if s = ''https://boards.greenhouse.io/acme''
                     then Inr \<lparr>hostname = ''boards.greenhouse.io''\<rparr> else Inl TypeError)
     ''https://boards.greenhouse.io/acme'' = True
   \<and> isGreenhouse (\<lambda>s. if s = ''https://boards.greenhouse.io/acme''
                     then Inr \<lparr>hostname = ''boards.greenhouse.io''\<rparr> else Inl TypeError)
     ''not a url'' = False"
  using isGreenhouse_total [of "\<lambda>s. if s = ''https://boards.greenhouse.io/acme''
                     then Inr \<lparr>hostname = ''boards.greenhouse.io''\<rparr> else Inl TypeError"
                     "''https://boards.greenhouse.io/acme''"]
        isGreenhouse_total [of "\<lambda>s. if s = ''https://boards.greenhouse.io/acme''
                     then Inr \<lparr>hostname = ''boards.greenhouse.io''\<rparr> else Inl TypeError"
                     "''not a url''"]
  by (simp add: endsWith_def)

subsection \<open>The request record\<close>

text \<open>
  C2. A terminal record should be consumed exactly once: the status check that sees a
  Complete or Error record removes it and returns it, and no other status check for
  the same request id returns it again. The handler reads the record, waits, and only
  then removes it. In the run below a second check for the same id starts while the
  first one waits: both have read the Complete record, and both answer complete with
  the data.
\<close>

theorem overlapping_checks_both_answer_complete:
  "wf_trace [] []
     [ScoreRequest ''score_1'' \<lparr>parsed_resume_text = Some ''cv'', jd_url = Some ''u''\<rparr> 1000,
      FetchReturned ''score_1'' 1001 (Returned (FetchData True 200 (Obj ''{score: 71}''))) 4000,
      CheckRead 1 ''score_1'', CheckRead 2 ''score_1'', CheckResume 1 5000, CheckResume 2 5001]
   \<and> bg_reply (CheckResume 1 5000)
        (bg_run [ScoreRequest ''score_1'' \<lparr>parsed_resume_text = Some ''cv'', jd_url = Some ''u''\<rparr> 1000,
                 FetchReturned ''score_1'' 1001 (Returned (FetchData True 200 (Obj ''{score: 71}''))) 4000,
                 CheckRead 1 ''score_1'', CheckRead 2 ''score_1''] bg_init)
       = StatusReply (ReplyComplete (Obj ''{score: 71}'') 3)
   \<and> bg_reply (CheckResume 2 5001)
        (bg_run [ScoreRequest ''score_1'' \<lparr>parsed_resume_text = Some ''cv'', jd_url = Some ''u''\<rparr> 1000,
                 FetchReturned ''score_1'' 1001 (Returned (FetchData True 200 (Obj ''{score: 71}''))) 4000,
                 CheckRead 1 ''score_1'', CheckRead 2 ''score_1'', CheckResume 1 5000] bg_init)
       = StatusReply (ReplyComplete (Obj ''{score: 71}'') 3)"
  by (simp add: bg_reply_def bg_init_def on_BG_RESUME_SCORE_def
      on_CHECK_REQUEST_STATUS_read_def on_CHECK_REQUEST_STATUS_resume_def
      handleResumeScoreRequest_begin_def
      handleResumeScoreRequest_settle_def handleResumeScoreRequest_finally_def
      saveRequestState_def clearRequestState_def getRequestState_def
      startKeepAlive_def stopKeepAlive_def round_seconds_def)

subsection \<open>The timeout of the fetch\<close>

text \<open>
  C4. A backend call that has neither finished nor failed after two minutes should
  end as an Error record with a timeout text. The timer of fetchWithTimeout is
  cleared as soon as fetch() has resolved, before the body is read. Below, the
  response arrives after 800 milliseconds. When its body never ends,
  fetchWithTimeout does not return and the orchestrator stores nothing: the record
  stays Processing. When its body takes 129200 milliseconds more, the orchestrator
  stores a Complete record 130 seconds after the start and no timeout Error.
\<close>

theorem timer_cleared_before_body_is_read:
  "score_fetch_returns ''score_1'' 1000 (Responds 800 True 200 BodyHangs) 3
     (fst (on_BG_RESUME_SCORE ''score_1'' \<lparr>parsed_resume_text = Some ''cv'', jd_url = Some ''u''\<rparr> 1000 bg_init))
     = None
   \<and> requests
        (fst (on_BG_RESUME_SCORE ''score_1'' \<lparr>parsed_resume_text = Some ''cv'', jd_url = Some ''u''\<rparr> 1000 bg_init))
        ''score_1'' = Some (ProcessingState 1000 ''u'')
   \<and> map_option (\<lambda>s'. requests s' ''score_1'')
        (score_fetch_returns ''score_1'' 1000
           (Responds 800 True 200 (BodyRead 129200 (Obj ''{score: 71}''))) 3
           (fst (on_BG_RESUME_SCORE ''score_1'' \<lparr>parsed_resume_text = Some ''cv'', jd_url = Some ''u''\<rparr> 1000 bg_init)))
       = Some (Some (CompleteState (Obj ''{score: 71}'') 131000 130))"
  by (simp add: score_fetch_returns_def fetchWithTimeout_def timer_race_def REQUEST_TIMEOUT_def
      bg_init_def on_BG_RESUME_SCORE_def handleResumeScoreRequest_begin_def
      handleResumeScoreRequest_settle_def handleResumeScoreRequest_finally_def
      saveRequestState_def startKeepAlive_def stopKeepAlive_def round_seconds_def)

subsection \<open>Cancellation\<close>

text \<open>
  C1. After a cancel message for a request id, every later status poll for that id
  should be answered not_found, also when the fetch returns afterwards. The run below
  shows what the code does: the poll right after the cancel is answered not_found,
  but once the fetch has returned the record is stored again, and the next poll is
  answered complete with the data.
\<close>

theorem cancelled_request_is_stored_again:
  "bg_reply (CheckResume 1 3000)
     (bg_run [ScoreRequest ''score_1'' \<lparr>parsed_resume_text = Some ''cv'', jd_url = Some ''u''\<rparr> 1000,
              CancelRequest ''score_1'',
              CheckRead 1 ''score_1''] bg_init)
     = StatusReply ReplyNotFound
   \<and> bg_reply (CheckResume 2 5000)
     (bg_run [ScoreRequest ''score_1'' \<lparr>parsed_resume_text = Some ''cv'', jd_url = Some ''u''\<rparr> 1000,
              CancelRequest ''score_1'',
              CheckRead 1 ''score_1'', CheckResume 1 3000,
              FetchReturned ''score_1'' 1001 (Returned (FetchData True 200 (Obj ''{score: 71}''))) 4000,
              CheckRead 2 ''score_1''] bg_init)
     = StatusReply (ReplyComplete (Obj ''{score: 71}'') 3)"
  by (simp add: bg_reply_def bg_init_def on_BG_RESUME_SCORE_def on_CANCEL_REQUEST_def
      on_CHECK_REQUEST_STATUS_read_def on_CHECK_REQUEST_STATUS_resume_def
      handleResumeScoreRequest_begin_def
      handleResumeScoreRequest_settle_def handleResumeScoreRequest_finally_def
      saveRequestState_def clearRequestState_def getRequestState_def
      startKeepAlive_def stopKeepAlive_def round_seconds_def)

subsection \<open>Label resolution\<close>





text \<open>
  C7. The resolver should never return the empty string. It does on the two pages
  below: an input whose previous sibling is a block holding one blank (the text is
  not empty, its trimmed form is shorter than 80 characters, and the trimmed form is
  returned), and an input whose aria-label attribute is one blank.
\<close>

theorem blank_sibling_gives_empty_label:
  "getLabelForElement page_blank_sibling 2 = []
   \<and> getLabelForElement page_blank_aria_label 1 = []"
  by code_simp

subsection \<open>Field extraction\<close>

text \<open>
  C8. In a list that extractFields returns, no two descriptors should share the tuple
  (id, name, label_text), and the first descriptor seen with each tuple should be
  kept. The loop tells descriptors apart by the text id::name::label_text. On the
  page below two visible inputs with different tuples, (a::b, none, x) and
  (a, b::, x), get the same text a::b::::x, and the second input is dropped although
  it duplicates nothing.
\<close>

theorem colliding_keys_drop_a_field:
  "map field_identity (visible_fields page_colliding_keys)
     = [(Some ''a::b'', None, ''x''), (Some ''a'', Some ''b::'', ''x'')]
   \<and> map field_key (visible_fields page_colliding_keys) = [''a::b::::x'', ''a::b::::x'']
   \<and> map field_identity (extractFields page_colliding_keys) = [(Some ''a::b'', None, ''x'')]"
  by code_simp

subsection \<open>Choosing an option of a select\<close>

text \<open>
  C5. The select branch of the value setter tries its strategies in the order
  exact or substring, numeric range, word overlap, last-resort substring: the option
  it settles on is the first candidate in this order, so the first strategy that
  yields a candidate decides and no later one is consulted. For the options
  "0-2 years", "3-5 years", "5-7 years", "7+ years" and the answer "7" the setter
  selects "5-7 years" (the first option whose text contains the answer), reports
  success and emits a change event.
\<close>

theorem select_strategy_order:
  "choose_option val opts = first_some (spec_option_candidates val opts)
   \<and> (\<forall>k<4. spec_option_candidates val opts ! k = Some opn
            \<and> (\<forall>j<k. spec_option_candidates val opts ! j = None)
            \<longrightarrow> choose_option val opts = Some opn)
   \<and> choose_option ''7'' years_options = Some \<lparr>opt_text = ''5-7 years'', opt_value = ''5-7 years''\<rparr>
   \<and> fst (setValue atob page_years_select (Some 1) ''7'' resumeFile) = True
   \<and> map_option opt_text
        (selected_option (snd (setValue atob page_years_select (Some 1) ''7'' resumeFile) ! 1))
       = Some ''5-7 years''
   \<and> el_events (snd (setValue atob page_years_select (Some 1) ''7'' resumeFile) ! 1) = [ChangeEvent]"
proof -
  have len: "length (spec_option_candidates val opts) = 4"
    by (simp add: spec_option_candidates_def Let_def)
  have decides: "\<forall>k<4. spec_option_candidates val opts ! k = Some opn
            \<and> (\<forall>j<k. spec_option_candidates val opts ! j = None)
            \<longrightarrow> choose_option val opts = Some opn"
    unfolding choose_option_first using first_some_at [of _ "spec_option_candidates val opts" opn] len
    by auto
  have seven: "choose_option ''7'' years_options
      = Some \<lparr>opt_text = ''5-7 years'', opt_value = ''5-7 years''\<rparr>"
    by code_simp
  have branch: "setValue atob page_years_select (Some 1) ''7'' resumeFile
      = setValue_select page_years_select 1 ''7''"
  proof -
    have "el_type (page_years_select ! 1) \<noteq> ''file''" by code_simp
    moreover have "tag_is (page_years_select ! 1) ''select''" by code_simp
    ultimately show ?thesis by (simp add: setValue_def)
  qed
  have sel: "fst (setValue_select page_years_select 1 ''7'') = True"
       "map_option opt_text (selected_option (snd (setValue_select page_years_select 1 ''7'') ! 1))
          = Some ''5-7 years''"
       "el_events (snd (setValue_select page_years_select 1 ''7'') ! 1) = [ChangeEvent]"
    by code_simp+
  from choose_option_first decides seven sel show ?thesis unfolding branch by blast
qed

theorem select_strategy_order_witness:
  "spec_option_candidates ''6'' years_options
     = [None, Some \<lparr>opt_text = ''5-7 years'', opt_value = ''5-7 years''\<rparr>, None, None]
   \<and> choose_option ''6'' years_options = Some \<lparr>opt_text = ''5-7 years'', opt_value = ''5-7 years''\<rparr>"
proof -
  have c: "spec_option_candidates ''6'' years_options
     = [None, Some \<lparr>opt_text = ''5-7 years'', opt_value = ''5-7 years''\<rparr>, None, None]"
    by code_simp
  from select_strategy_order [of "''6''" years_options]
  have "choose_option ''6'' years_options = first_some (spec_option_candidates ''6'' years_options)"
    by blast
  with c show ?thesis by simp
qed

subsection \<open>File inputs\<close>

text \<open>
  C9. For a file input and no resume file, the value setter clicks the control once
  (one Click is added to its events and nothing else on the page changes) and reports
  failure, and the turn of the main loop for a field resolved to that control leaves
  the count of filled fields as it was. With a resume file whose data decodes, the
  setter attaches the file, emits a change and an input event and reports success,
  and the turn of the main loop adds one to the count.
\<close>

theorem file_input_handling:
  assumes "i < length doc" and "el_type (doc ! i) = ''file''"
  shows "setValue atob doc (Some i) val None
           = (False, doc[i := (doc ! i)\<lparr>el_events := el_events (doc ! i) @ [Click]\<rparr>])
       \<and> (findElementForField doc f = Some i \<longrightarrow>
            fill_field atob answers None f (n, doc)
              = (n, doc[i := (doc ! i)\<lparr>el_events := el_events (doc ! i) @ [Click]\<rparr>]))
       \<and> (rf_data rf \<noteq> [] \<and> atob (rf_data rf) = Some bytes \<longrightarrow>
            setValue atob doc (Some i) val (Some rf)
              = (True, doc[i := (doc ! i)
                   \<lparr>el_files := [\<lparr>file_name = rf_name rf,
                                  file_type = or_else (rf_type rf) ''application/pdf'',
                                  file_bytes = bytes\<rparr>],
                    el_events := el_events (doc ! i) @ [ChangeEvent, InputEvent]\<rparr>])
            \<and> (findElementForField doc f = Some i \<longrightarrow>
                 fst (fill_field atob answers (Some rf) f (n, doc)) = n + 1))"
proof -
  note none = setValue_file_none [OF assms, of atob]
  have loop: "findElementForField doc f = Some i \<longrightarrow>
            fill_field atob answers None f (n, doc)
              = (n, doc[i := (doc ! i)\<lparr>el_events := el_events (doc ! i) @ [Click]\<rparr>])"
    using assms(2) none [of "[]"] by (simp add: fill_field_def)
  have some: "rf_data rf \<noteq> [] \<and> atob (rf_data rf) = Some bytes \<longrightarrow>
            setValue atob doc (Some i) val (Some rf)
              = (True, doc[i := (doc ! i)
                   \<lparr>el_files := [\<lparr>file_name = rf_name rf,
                                  file_type = or_else (rf_type rf) ''application/pdf'',
                                  file_bytes = bytes\<rparr>],
                    el_events := el_events (doc ! i) @ [ChangeEvent, InputEvent]\<rparr>])
            \<and> (findElementForField doc f = Some i \<longrightarrow>
                 fst (fill_field atob answers (Some rf) f (n, doc)) = n + 1)"
  proof (intro impI, elim conjE)
    assume d: "rf_data rf \<noteq> []" and a: "atob (rf_data rf) = Some bytes"
    note s = setValue_file_some [where atob = atob and rf = rf, OF assms d a]
    have "findElementForField doc f = Some i \<longrightarrow>
                 fst (fill_field atob answers (Some rf) f (n, doc)) = n + 1"
      using assms(2) s [of "[]"] by (simp add: fill_field_def)
    with s [of val] show "setValue atob doc (Some i) val (Some rf)
              = (True, doc[i := (doc ! i)
                   \<lparr>el_files := [\<lparr>file_name = rf_name rf,
                                  file_type = or_else (rf_type rf) ''application/pdf'',
                                  file_bytes = bytes\<rparr>],
                    el_events := el_events (doc ! i) @ [ChangeEvent, InputEvent]\<rparr>])
            \<and> (findElementForField doc f = Some i \<longrightarrow>
                 fst (fill_field atob answers (Some rf) f (n, doc)) = n + 1)" by blast
  qed
  from none [of val] loop some show ?thesis by blast
qed

theorem file_input_handling_witness:
  "1 < length page_file_input \<and> el_type (page_file_input ! 1) = ''file''
   \<and> findElementForField page_file_input resume_field = Some 1
   \<and> fill_field sample_atob Map.empty None resume_field (0, page_file_input)
       = (0, page_file_input[1 := (page_file_input ! 1)\<lparr>el_events := el_events (page_file_input ! 1) @ [Click]\<rparr>])
   \<and> el_events (page_file_input ! 1) = []
   \<and> rf_data sample_resume_file \<noteq> []
   \<and> sample_atob (rf_data sample_resume_file) = Some ''%PDF''
   \<and> fst (fill_field sample_atob Map.empty (Some sample_resume_file) resume_field (0, page_file_input)) = 0 + 1"
proof -
  have h1: "1 < length page_file_input" by code_simp
  have h2: "el_type (page_file_input ! 1) = ''file''" by code_simp
  have h3: "findElementForField page_file_input resume_field = Some 1" by code_simp
  have h4: "el_events (page_file_input ! 1) = []" by code_simp
  have h5: "rf_data sample_resume_file \<noteq> []" by code_simp
  have h6: "sample_atob (rf_data sample_resume_file) = Some ''%PDF''" by code_simp
  note t = file_input_handling [OF h1 h2, of sample_atob _ resume_field Map.empty 0 sample_resume_file "''%PDF''"]
  from t h3 have a: "fill_field sample_atob Map.empty None resume_field (0, page_file_input)
       = (0, page_file_input[1 := (page_file_input ! 1)\<lparr>el_events := el_events (page_file_input ! 1) @ [Click]\<rparr>])"
    by blast
  from t h3 h5 h6
  have b: "fst (fill_field sample_atob Map.empty (Some sample_resume_file) resume_field (0, page_file_input)) = 0 + 1"
    by blast
  from h1 h2 h3 h4 h5 h6 a b show ?thesis by blast
qed

subsection \<open>The result of autofillFields\<close>

text \<open>
  C3. autofillFields should return true only when a field was filled. On the page
  below (a select "Email updates" with the options Yes and Never), with no answers
  and a resume text that holds an e-mail address, the main loop fills nothing, and in
  the fallback pass the value setter finds no option for the address, reports
  failure and leaves the page as it was; the function returns true all the same.
\<close>

theorem fallback_counts_failed_fill:
  "extractFields page_email_optin = [email_optin_field]
   \<and> setValue sample_atob page_email_optin (Some 2) ''jane@example.com'' None = (False, page_email_optin)
   \<and> autofillFields sample_atob page_email_optin [email_optin_field] (Some Map.empty)
        (Some \<lparr>raw_text = ''Jane Doe jane@example.com''\<rparr>) None
       = (True, page_email_optin)"
  by code_simp

end
